theory Spec2Isabelle
  imports Complex_Main "HOL-Library.Char_ord" "HOL-Library.List_Lexorder"
    "HOL-Library.Product_Lexorder"
    "HOL-Library.Sublist" "HOL-Library.Multiset"
begin

section \<open>Values exchanged with the two upstream services\<close>

text \<open>
  The server in \<^verbatim>\<open>code/server/main.py\<close> handles the bodies of both upstream services as
  the untyped values that Python's JSON parser returns. They are modelled as they are:
  \<^item> \<open>JNull\<close> is Python's \<^verbatim>\<open>None\<close>, which is also what \<^verbatim>\<open>fetch_news_page\<close> returns for a
    failed fetch;
  \<^item> \<open>JNum\<close> holds Python's \<^verbatim>\<open>int\<close> and finite \<^verbatim>\<open>float\<close> values as real numbers (the
    literals \<^verbatim>\<open>NaN\<close> and \<^verbatim>\<open>Infinity\<close>, which Python's parser also accepts, are not
    represented);
  \<^item> \<open>JStr\<close> holds a string as its UTF-8 bytes; comparing byte sequences lexicographically
    orders strings as Python's comparison by code point does;
  \<^item> \<open>JObj\<close> holds the items of a \<^verbatim>\<open>dict\<close>; a parsed object has one binding for each key.
\<close>

datatype json =
    JNull
  | JBool bool
  | JNum real
  | JStr string
  | JArr "json list"
  | JObj "(string \<times> json) list"

datatype error = KeyError | TypeError | IndexError | ValueError | AttributeError

text \<open>Truth value testing, as \<^verbatim>\<open>if v\<close>, \<^verbatim>\<open>a or b\<close> and \<^verbatim>\<open>a and b\<close> apply it.\<close>

fun py_truthy :: "json \<Rightarrow> bool" where
  "py_truthy JNull = False"
| "py_truthy (JBool b) = b"
| "py_truthy (JNum r) = (r \<noteq> 0)"
| "py_truthy (JStr s) = (s \<noteq> [])"
| "py_truthy (JArr xs) = (xs \<noteq> [])"
| "py_truthy (JObj kvs) = (kvs \<noteq> [])"

text \<open>Subscription with a string key, \<^verbatim>\<open>v["k"]\<close>.\<close>

fun py_getitem :: "json \<Rightarrow> string \<Rightarrow> error + json" where
  "py_getitem (JObj kvs) k = (case map_of kvs k of None \<Rightarrow> Inl KeyError | Some v \<Rightarrow> Inr v)"
| "py_getitem v k = Inl TypeError"

text \<open>
  Subscription with the index zero, \<^verbatim>\<open>v[0]\<close>. An object has string keys only, so the
  key \<^verbatim>\<open>0\<close> is missing from it. The first character of a string is a string of one
  character.
\<close>

fun py_getitem0 :: "json \<Rightarrow> error + json" where
  "py_getitem0 (JArr []) = Inl IndexError"
| "py_getitem0 (JArr (x # xs)) = Inr x"
| "py_getitem0 (JStr []) = Inl IndexError"
| "py_getitem0 (JStr (c # cs)) = Inr (JStr [c])"
| "py_getitem0 (JObj kvs) = Inl KeyError"
| "py_getitem0 v = Inl TypeError"

text \<open>Iteration, \<^verbatim>\<open>for x in v\<close>: the members of an array, the keys of an object, the
  characters of a string.\<close>

fun py_iter :: "json \<Rightarrow> error + json list" where
  "py_iter (JArr xs) = Inr xs"
| "py_iter (JObj kvs) = Inr (map (\<lambda>kv. JStr (fst kv)) kvs)"
| "py_iter (JStr s) = Inr (map (\<lambda>c. JStr [c]) s)"
| "py_iter v = Inl TypeError"

text \<open>
  The membership test \<^verbatim>\<open>'data' in v\<close>: a key of an object, a member of an array equal to
  the string, a substring of a string. Nothing else supports the test.
\<close>

fun py_contains_data :: "json \<Rightarrow> error + bool" where
  "py_contains_data (JObj kvs) = Inr (''data'' \<in> set (map fst kvs))"
| "py_contains_data (JArr xs) = Inr (JStr ''data'' \<in> set xs)"
| "py_contains_data (JStr s) = Inr (sublist ''data'' s)"
| "py_contains_data v = Inl TypeError"

text \<open>
  The ordering comparisons \<^verbatim>\<open>a < b\<close> and \<^verbatim>\<open>a > b\<close>. Numbers are ordered with numbers
  (\<^verbatim>\<open>True\<close> and \<^verbatim>\<open>False\<close> count as 1 and 0) and strings with strings; \<^verbatim>\<open>None\<close> and
  objects are ordered with nothing, themselves included. Python also orders two
  arrays, member by member; that order is not modelled, and comparing arrays is reported
  as \<open>TypeError\<close> here. No statement below is about array-valued scores or timestamps.
\<close>

fun py_num :: "json \<Rightarrow> real option" where
  "py_num (JNum r) = Some r"
| "py_num (JBool b) = Some (if b then 1 else 0)"
| "py_num v = None"

fun py_lt :: "json \<Rightarrow> json \<Rightarrow> error + bool" where
  "py_lt (JStr s) (JStr t) = Inr (s < t)"
| "py_lt a b = (case (py_num a, py_num b) of
      (Some x, Some y) \<Rightarrow> Inr (x < y)
    | _ \<Rightarrow> Inl TypeError)"

definition py_gt :: "json \<Rightarrow> json \<Rightarrow> error + bool" where
  "py_gt a b = py_lt b a"

text \<open>
  \<^verbatim>\<open>str.lower()\<close>. Only the letters A to Z are mapped; Python also maps letters outside
  ASCII, none of them to a string of ASCII letters other than \<^verbatim>\<open>k\<close>, so the result is one
  of \<^verbatim>\<open>positive\<close>, \<^verbatim>\<open>neutral\<close>, \<^verbatim>\<open>negative\<close> in Python exactly when it is here.
\<close>

definition lower_char :: "char \<Rightarrow> char" where
  "lower_char c =
     (case map_of (zip ''ABCDEFGHIJKLMNOPQRSTUVWXYZ'' ''abcdefghijklmnopqrstuvwxyz'') c of
        None \<Rightarrow> c
      | Some d \<Rightarrow> d)"

fun py_lower :: "json \<Rightarrow> error + string" where
  "py_lower (JStr s) = Inr (map lower_char s)"
| "py_lower v = Inl AttributeError"

section \<open>The upstream services\<close>

text \<open>
  What an HTTP call gives the server: the call raises (connection refused, timeout), or
  a response arrives, with a status that \<^verbatim>\<open>raise_for_status\<close> accepts or not and a body
  that is JSON or not.
\<close>

datatype http_reply =
    Transport_error
  | Response (status_ok: bool) (body_json: "json option")

record request_params =
  api_token :: "string option"
  symbols_param :: string
  filter_entities :: string
  language :: string
  page_param :: int
  limit_param :: int

text \<open>
  The environment of one request: the configured token, the news provider as a function
  of the query, and the sentiment service as a function of the text it is sent. The
  sentiment service may answer the same text differently each time, so its answer also
  depends on the number of calls made before. \<open>py_str\<close> is Python's \<^verbatim>\<open>str()\<close> on values
  that are not strings, used only to build the text sent for classification.
\<close>

record world =
  marketaux_token :: "string option"
  news_api :: "request_params \<Rightarrow> http_reply"
  sentiment_api :: "nat \<Rightarrow> string \<Rightarrow> http_reply"
  py_str :: "json \<Rightarrow> string"

section \<open>Sentiment classifier client\<close>

text \<open>\<^verbatim>\<open>max(items, key=lambda x: x['score'])\<close>: the first item with the greatest key. The
  key of every item is computed and compared with the greatest key so far by \<^verbatim>\<open>>\<close>.\<close>

fun max_score_from :: "json \<Rightarrow> json \<Rightarrow> json list \<Rightarrow> error + json" where
  "max_score_from maxitem maxval [] = Inr maxitem"
| "max_score_from maxitem maxval (item # items) =
     (case py_getitem item ''score'' of
        Inl e \<Rightarrow> Inl e
      | Inr val \<Rightarrow>
          (case py_gt val maxval of
             Inl e \<Rightarrow> Inl e
           | Inr True \<Rightarrow> max_score_from item val items
           | Inr False \<Rightarrow> max_score_from maxitem maxval items))"

fun max_score :: "json list \<Rightarrow> error + json" where
  "max_score [] = Inl ValueError"
| "max_score (item # items) =
     (case py_getitem item ''score'' of
        Inl e \<Rightarrow> Inl e
      | Inr val \<Rightarrow> max_score_from item val items)"

definition sentiment_mapping :: "string \<rightharpoonup> string" where
  "sentiment_mapping =
     [''positive'' \<mapsto> ''POSITIVE'', ''neutral'' \<mapsto> ''NEUTRAL'', ''negative'' \<mapsto> ''NEGATIVE'']"

text \<open>The body of the \<^verbatim>\<open>try\<close> block of \<^verbatim>\<open>get_sentiment\<close>, from the parsed response on.\<close>

definition sentiment_of_result :: "json \<Rightarrow> error + string \<times> json" where
  "sentiment_of_result result =
     (case py_getitem0 result of
        Inl e \<Rightarrow> Inl e
      | Inr classes \<Rightarrow>
     (case py_iter classes of
        Inl e \<Rightarrow> Inl e
      | Inr items \<Rightarrow>
     (case max_score items of
        Inl e \<Rightarrow> Inl e
      | Inr sentiment_result \<Rightarrow>
     (case py_getitem sentiment_result ''label'' of
        Inl e \<Rightarrow> Inl e
      | Inr label \<Rightarrow>
     (case py_lower label of
        Inl e \<Rightarrow> Inl e
      | Inr low \<Rightarrow>
     (case py_getitem sentiment_result ''score'' of
        Inl e \<Rightarrow> Inl e
      | Inr score \<Rightarrow>
          Inr (case sentiment_mapping low of None \<Rightarrow> ''NEUTRAL'' | Some l \<Rightarrow> l, score)))))))"

text \<open>\<^verbatim>\<open>get_sentiment\<close>: every exception of the call, of the parsing and of the
  selection ends in the \<^verbatim>\<open>except\<close> branch.\<close>

definition get_sentiment :: "world \<Rightarrow> nat \<Rightarrow> string \<Rightarrow> string \<times> json" where
  "get_sentiment w n text =
     (case sentiment_api w n text of
        Transport_error \<Rightarrow> (''NEUTRAL'', JNum 0.5)
      | Response ok None \<Rightarrow> (''NEUTRAL'', JNum 0.5)
      | Response ok (Some result) \<Rightarrow>
          (case sentiment_of_result result of
             Inl e \<Rightarrow> (''NEUTRAL'', JNum 0.5)
           | Inr r \<Rightarrow> r))"

section \<open>Article transformer\<close>

text \<open>
  The articles are the dictionaries that \<^verbatim>\<open>transform_news_data\<close> builds, with the keys
  of \<^verbatim>\<open>NewsArticle\<close>. The two sentiment keys are absent (\<open>None\<close>) until the enrichment
  sets them. Every value is whatever the provider sent under the corresponding key.
\<close>

record article =
  id_art :: json
  title :: json
  description :: json
  source :: json
  url :: json
  publishedAt :: json
  relatedSymbols :: "json list"
  sentiment :: "string option"
  sentiment_score :: "json option"

text \<open>The comprehension over \<^verbatim>\<open>article["entities"]\<close>: the symbol is read only from an
  entity whose type equals \<^verbatim>\<open>"equity"\<close>.\<close>

fun related_symbols :: "json list \<Rightarrow> error + json list" where
  "related_symbols [] = Inr []"
| "related_symbols (entity # entities) =
     (case py_getitem entity ''type'' of
        Inl e \<Rightarrow> Inl e
      | Inr ty \<Rightarrow>
          if ty = JStr ''equity'' then
            (case py_getitem entity ''symbol'' of
               Inl e \<Rightarrow> Inl e
             | Inr symbol \<Rightarrow>
                 (case related_symbols entities of
                    Inl e \<Rightarrow> Inl e
                  | Inr rest \<Rightarrow> Inr (symbol # rest)))
          else related_symbols entities)"

text \<open>One pass of the loop body of \<^verbatim>\<open>transform_news_data\<close>, in the order in which the
  source reads the keys; the snippet is read only when the description is falsy.\<close>

definition transform_article :: "json \<Rightarrow> error + article" where
  "transform_article raw =
     (case py_getitem raw ''entities'' of Inl e \<Rightarrow> Inl e | Inr ents \<Rightarrow>
     (case py_iter ents of Inl e \<Rightarrow> Inl e | Inr entities \<Rightarrow>
     (case related_symbols entities of Inl e \<Rightarrow> Inl e | Inr related \<Rightarrow>
     (case py_getitem raw ''uuid'' of Inl e \<Rightarrow> Inl e | Inr uuid \<Rightarrow>
     (case py_getitem raw ''title'' of Inl e \<Rightarrow> Inl e | Inr ttl \<Rightarrow>
     (case py_getitem raw ''description'' of Inl e \<Rightarrow> Inl e | Inr long_desc \<Rightarrow>
     (case (if py_truthy long_desc then Inr long_desc else py_getitem raw ''snippet'') of
        Inl e \<Rightarrow> Inl e | Inr desc \<Rightarrow>
     (case py_getitem raw ''source'' of Inl e \<Rightarrow> Inl e | Inr src \<Rightarrow>
     (case py_getitem raw ''url'' of Inl e \<Rightarrow> Inl e | Inr link \<Rightarrow>
     (case py_getitem raw ''published_at'' of Inl e \<Rightarrow> Inl e | Inr published \<Rightarrow>
        Inr \<lparr>id_art = uuid, title = ttl, description = desc, source = src, url = link,
             publishedAt = published, relatedSymbols = related,
             sentiment = None, sentiment_score = None\<rparr>))))))))))"

fun transform_articles :: "json list \<Rightarrow> error + article list" where
  "transform_articles [] = Inr []"
| "transform_articles (raw # raws) =
     (case transform_article raw of
        Inl e \<Rightarrow> Inl e
      | Inr a \<Rightarrow>
          (case transform_articles raws of
             Inl e \<Rightarrow> Inl e
           | Inr as \<Rightarrow> Inr (a # as)))"

definition transform_news_data :: "json \<Rightarrow> error + article list" where
  "transform_news_data marketaux_response =
     (case py_getitem marketaux_response ''data'' of
        Inl e \<Rightarrow> Inl e
      | Inr data \<Rightarrow>
          (case py_iter data of
             Inl e \<Rightarrow> Inl e
           | Inr raws \<Rightarrow> transform_articles raws))"

section \<open>News source client\<close>

definition request_params_of :: "world \<Rightarrow> string option \<Rightarrow> int \<Rightarrow> int \<Rightarrow> request_params" where
  "request_params_of w symbols page limit =
     \<lparr>api_token = marketaux_token w,
      symbols_param = (case symbols of None \<Rightarrow> [] | Some s \<Rightarrow> s),
      filter_entities = ''true'',
      language = ''en'',
      page_param = page,
      limit_param = limit\<rparr>"

text \<open>\<^verbatim>\<open>fetch_news_page\<close>: a transport error, a rejected status and a body that is not JSON
  all give \<^verbatim>\<open>None\<close>; so does a body that is the JSON value \<^verbatim>\<open>null\<close>.\<close>

definition fetch_news_page :: "world \<Rightarrow> string option \<Rightarrow> int \<Rightarrow> int \<Rightarrow> json" where
  "fetch_news_page w symbols page limit =
     (case news_api w (request_params_of w symbols page limit) of
        Transport_error \<Rightarrow> JNull
      | Response ok body \<Rightarrow>
          if ok then (case body of None \<Rightarrow> JNull | Some j \<Rightarrow> j) else JNull)"

section \<open>Aggregation pipeline\<close>

text \<open>The text sent for classification, \<^verbatim>\<open>f"{article['title']}. {article['description']}"\<close>.\<close>

definition format_value :: "world \<Rightarrow> json \<Rightarrow> string" where
  "format_value w v = (case v of JStr s \<Rightarrow> s | _ \<Rightarrow> py_str w v)"

definition sentiment_text :: "world \<Rightarrow> article \<Rightarrow> string" where
  "sentiment_text w a = format_value w (title a) @ ''. '' @ format_value w (description a)"

text \<open>The inner loop: one classification per article, in order; \<open>n\<close> counts the calls
  made to the sentiment service so far.\<close>

fun enrich :: "world \<Rightarrow> nat \<Rightarrow> article list \<Rightarrow> article list" where
  "enrich w n [] = []"
| "enrich w n (a # as) =
     (case get_sentiment w n (sentiment_text w a) of
        (sentiment_label, score) \<Rightarrow>
          a\<lparr>sentiment := Some sentiment_label, sentiment_score := Some score\<rparr>
            # enrich w (Suc n) as)"

text \<open>The outer loop over the four results. An exception of the membership test or of
  the transformer leaves the loop and the function.\<close>

fun combine :: "world \<Rightarrow> nat \<Rightarrow> article list \<Rightarrow> json list \<Rightarrow> error + article list" where
  "combine w n combined_news [] = Inr combined_news"
| "combine w n combined_news (result # results) =
     (if py_truthy result then
        (case py_contains_data result of
           Inl e \<Rightarrow> Inl e
         | Inr False \<Rightarrow> combine w n combined_news results
         | Inr True \<Rightarrow>
             (case transform_news_data result of
                Inl e \<Rightarrow> Inl e
              | Inr news_data \<Rightarrow>
                  combine w (n + length news_data)
                    (combined_news @ enrich w n news_data) results))
      else combine w n combined_news results)"

text \<open>The pages requested, \<^verbatim>\<open>range(1, 5)\<close>, and the results of the four fetches in the
  order of the pages, as \<^verbatim>\<open>asyncio.gather\<close> returns them.\<close>

definition fetch_pages :: "int list" where
  "fetch_pages = [1, 2, 3, 4]"

definition api_results :: "world \<Rightarrow> string option \<Rightarrow> int \<Rightarrow> json list" where
  "api_results w symbols base_limit =
     map (\<lambda>page. fetch_news_page w symbols page base_limit) fetch_pages"


definition fetch_all_news_pages :: "world \<Rightarrow> string option \<Rightarrow> int \<Rightarrow> error + article list" where
  "fetch_all_news_pages w symbols base_limit =
     combine w 0 [] (api_results w symbols base_limit)"

section \<open>Sorting by publication time\<close>

text \<open>
  \<^verbatim>\<open>list.sort(key=..., reverse=True)\<close> is a stable sort that compares keys by \<^verbatim>\<open><\<close> only.
  With \<^verbatim>\<open>reverse=True\<close> the list is reversed, sorted in ascending order and reversed
  again, so that elements with equal keys keep their order. The ascending sort is
  written as an insertion sort: each element goes behind the elements that are not
  greater than it. A comparison that raises ends the sort with its exception. Python's
  own sort makes other comparisons in another order; like this one it compares every
  key with some other key, so on keys that are not arrays it raises for the same lists:
  those that hold keys of two kinds, or a \<^verbatim>\<open>None\<close> or an object next to any other key.
\<close>

fun py_insort :: "('a \<Rightarrow> json) \<Rightarrow> 'a \<Rightarrow> 'a list \<Rightarrow> error + 'a list" where
  "py_insort key x [] = Inr [x]"
| "py_insort key x (y # ys) =
     (case py_lt (key x) (key y) of
        Inl e \<Rightarrow> Inl e
      | Inr True \<Rightarrow> Inr (x # y # ys)
      | Inr False \<Rightarrow>
          (case py_insort key x ys of
             Inl e \<Rightarrow> Inl e
           | Inr zs \<Rightarrow> Inr (y # zs)))"

fun py_sort_from :: "('a \<Rightarrow> json) \<Rightarrow> 'a list \<Rightarrow> 'a list \<Rightarrow> error + 'a list" where
  "py_sort_from key sorted_part [] = Inr sorted_part"
| "py_sort_from key sorted_part (x # xs) =
     (case py_insort key x sorted_part of
        Inl e \<Rightarrow> Inl e
      | Inr longer \<Rightarrow> py_sort_from key longer xs)"

definition py_sort :: "('a \<Rightarrow> json) \<Rightarrow> 'a list \<Rightarrow> error + 'a list" where
  "py_sort key xs = py_sort_from key [] xs"

definition py_sort_reverse :: "('a \<Rightarrow> json) \<Rightarrow> 'a list \<Rightarrow> error + 'a list" where
  "py_sort_reverse key xs =
     (case py_sort key (rev xs) of
        Inl e \<Rightarrow> Inl e
      | Inr ys \<Rightarrow> Inr (rev ys))"

section \<open>Result cache and rate limiter\<close>

text \<open>
  Modelled from the spec: the TTL store. \<^verbatim>\<open>news_cache\<close> and \<^verbatim>\<open>rate_limit_cache\<close> are
  objects of the class \<^verbatim>\<open>TTLCache\<close> of the library \<^verbatim>\<open>cachetools\<close>, whose code is not in the
  repository. The spec gives its contract: an entry is live from its write until its
  time to live has passed; a key with no live entry is a miss; a write replaces the
  entry of its key; the store holds a bounded number of entries (the source sets the
  bounds, 500 results and 100 markers), and the write of a new key to a full store
  evicts an entry that is not expired. The spec names the least recently used entry
  and leaves the exact order open; here it is the entry written longest ago, a read
  leaving the order as it is. The store is the list of its entries (key, value, expiry
  time), oldest write first. Every operation reads the store's timer; the reading is
  an argument.
\<close>

type_synonym 'v ttl_cache = "(string \<times> 'v \<times> real) list"

definition ttl_lookup :: "'v ttl_cache \<Rightarrow> real \<Rightarrow> string \<Rightarrow> 'v option" where
  "ttl_lookup c now k =
     (case find (\<lambda>e. fst e = k) c of
        None \<Rightarrow> None
      | Some (k', v, expires) \<Rightarrow> if now < expires then Some v else None)"

definition ttl_contains :: "'v ttl_cache \<Rightarrow> real \<Rightarrow> string \<Rightarrow> bool" where
  "ttl_contains c now k = (ttl_lookup c now k \<noteq> None)"

definition ttl_getitem :: "'v ttl_cache \<Rightarrow> real \<Rightarrow> string \<Rightarrow> error + 'v" where
  "ttl_getitem c now k = (case ttl_lookup c now k of None \<Rightarrow> Inl KeyError | Some v \<Rightarrow> Inr v)"

definition ttl_setitem :: "nat \<Rightarrow> real \<Rightarrow> 'v ttl_cache \<Rightarrow> real \<Rightarrow> string \<Rightarrow> 'v \<Rightarrow> 'v ttl_cache" where
  "ttl_setitem maxsize ttl c now k v =
     (let live = filter (\<lambda>e. now < snd (snd e)) c;
          kept = (if k \<in> set (map fst live)
                  then filter (\<lambda>e. fst e \<noteq> k) live
                  else drop (length live + 1 - maxsize) live)
      in kept @ [(k, v, now + ttl)])"

definition NEWS_CACHE_TTL :: real where
  "NEWS_CACHE_TTL = 600"

definition RATE_LIMIT_TTL :: real where
  "RATE_LIMIT_TTL = 10"

text \<open>The two module-level stores. The value stored under a rate-limit key, the wall
  clock time of the request, is never read; it is left out.\<close>

record state =
  news_cache :: "article list ttl_cache"
  rate_limit_cache :: "unit ttl_cache"

definition initial_state :: state where
  "initial_state = \<lparr>news_cache = [], rate_limit_cache = []\<rparr>"

definition news_cache_set :: "state \<Rightarrow> real \<Rightarrow> string \<Rightarrow> article list \<Rightarrow> state" where
  "news_cache_set st now k v =
     st\<lparr>news_cache := ttl_setitem 500 NEWS_CACHE_TTL (news_cache st) now k v\<rparr>"

definition rate_limit_cache_set :: "state \<Rightarrow> real \<Rightarrow> string \<Rightarrow> state" where
  "rate_limit_cache_set st now k =
     st\<lparr>rate_limit_cache := ttl_setitem 100 RATE_LIMIT_TTL (rate_limit_cache st) now k ()\<rparr>"

section \<open>Query surface\<close>

text \<open>\<^verbatim>\<open>str()\<close> of an integer, as the f-strings of the cache keys apply it.\<close>

definition digit_char :: "nat \<Rightarrow> char" where
  "digit_char d = ''0123456789'' ! d"

fun str_nat :: "nat \<Rightarrow> string" where
  "str_nat n = (if n < 10 then [digit_char n] else str_nat (n div 10) @ [digit_char (n mod 10)])"

declare str_nat.simps [simp del]

definition str_int :: "int \<Rightarrow> string" where
  "str_int i = (if i < 0 then CHR ''-'' # str_nat (nat (- i)) else str_nat (nat i))"

text \<open>\<^verbatim>\<open>f"rate_limit:{symbols or 'general'}"\<close> and \<^verbatim>\<open>f"news:{symbols}:{page}:{limit}"\<close>.\<close>

definition symbols_or :: "string option \<Rightarrow> string \<Rightarrow> string" where
  "symbols_or symbols dflt = (case symbols of None \<Rightarrow> dflt | Some s \<Rightarrow> if s = [] then dflt else s)"

definition rate_limit_key :: "string option \<Rightarrow> string" where
  "rate_limit_key symbols = ''rate_limit:'' @ symbols_or symbols ''general''"

definition rate_limit_refresh_key :: "string option \<Rightarrow> string" where
  "rate_limit_refresh_key symbols = ''rate_limit_refresh:'' @ symbols_or symbols ''general''"

definition cache_key :: "string option \<Rightarrow> int \<Rightarrow> int \<Rightarrow> string" where
  "cache_key symbols page limit =
     ''news:'' @ (case symbols of None \<Rightarrow> ''None'' | Some s \<Rightarrow> s)
       @ '':'' @ str_int page @ '':'' @ str_int limit"

text \<open>
  The readings of the stores' timer during one request, in the order of the source:
  at the rate-limit test, at the rate-limit write, at the cache test, at the cache read
  and, after the fetch, at the cache write.
\<close>

record clock =
  at_limit_test :: real
  at_limit_write :: real
  at_cache_test :: real
  at_cache_read :: real
  at_cache_write :: real

datatype response = Ok "article list" | HTTPException nat

text \<open>\<^verbatim>\<open>get_news\<close>. The rate-limit rejection is an \<^verbatim>\<open>HTTPException\<close> and is raised again by
  the first handler; every other exception becomes the status 500.\<close>

definition get_news ::
  "world \<Rightarrow> clock \<Rightarrow> state \<Rightarrow> string option \<Rightarrow> int \<Rightarrow> int \<Rightarrow> state \<times> response" where
  "get_news w clk st symbols page limit =
     (if ttl_contains (rate_limit_cache st) (at_limit_test clk) (rate_limit_key symbols)
      then (st, HTTPException 429)
      else
        let st1 = rate_limit_cache_set st (at_limit_write clk) (rate_limit_key symbols) in
        if ttl_contains (news_cache st1) (at_cache_test clk) (cache_key symbols page limit)
        then
          (case ttl_getitem (news_cache st1) (at_cache_read clk) (cache_key symbols page limit) of
             Inl e \<Rightarrow> (st1, HTTPException 500)
           | Inr cached \<Rightarrow> (st1, Ok cached))
        else
          (case fetch_all_news_pages w symbols (limit div 3) of
             Inl e \<Rightarrow> (st1, HTTPException 500)
           | Inr fetched_news \<Rightarrow>
               if fetched_news \<noteq> [] then
                 (case py_sort_reverse publishedAt fetched_news of
                    Inl e \<Rightarrow> (st1, HTTPException 500)
                  | Inr sorted_news \<Rightarrow>
                      (news_cache_set st1 (at_cache_write clk)
                         (cache_key symbols page limit) sorted_news,
                       Ok sorted_news))
               else (st1, Ok [])))"

definition refresh_news :: "world \<Rightarrow> clock \<Rightarrow> state \<Rightarrow> string option \<Rightarrow> state \<times> response" where
  "refresh_news w clk st symbols =
     (if ttl_contains (rate_limit_cache st) (at_limit_test clk) (rate_limit_refresh_key symbols)
      then (st, HTTPException 429)
      else
        let st1 = rate_limit_cache_set st (at_limit_write clk) (rate_limit_refresh_key symbols) in
        (case fetch_all_news_pages w symbols 10 of
           Inl e \<Rightarrow> (st1, HTTPException 500)
         | Inr fetched_news \<Rightarrow>
             if fetched_news \<noteq> [] then
               (case py_sort_reverse publishedAt fetched_news of
                  Inl e \<Rightarrow> (st1, HTTPException 500)
                | Inr sorted_news \<Rightarrow>
                    (news_cache_set st1 (at_cache_write clk) (cache_key symbols 1 30) sorted_news,
                     Ok sorted_news))
             else (st1, Ok [])))"

text \<open>
  A request to one of the two endpoints, with the world and the clock readings under
  which it is handled. The server handles the requests one after another: the steps
  in which two requests that overlap in time may interleave (a request waits for its
  fetches between its test of the cache and its write to it) are not modelled.
\<close>

datatype request =
    GetNews world clock "string option" int int
  | RefreshNews world clock "string option"

fun handle :: "state \<Rightarrow> request \<Rightarrow> state \<times> response" where
  "handle st (GetNews w clk symbols page limit) = get_news w clk st symbols page limit"
| "handle st (RefreshNews w clk symbols) = refresh_news w clk st symbols"

fun serve :: "state \<Rightarrow> request list \<Rightarrow> state" where
  "serve st [] = st"
| "serve st (r # rs) = serve (fst (handle st r)) rs"

section \<open>Notions used to state the properties\<close>

text \<open>A provider record that the transformer accepts: every key it reads is present,
  the entities can be iterated, every entity has a type and every equity a symbol.
  The publication time of a well-formed record is a string.\<close>

definition has_item :: "json \<Rightarrow> string \<Rightarrow> bool" where
  "has_item v k = (case py_getitem v k of Inl err \<Rightarrow> False | Inr x \<Rightarrow> True)"

definition is_str :: "json \<Rightarrow> bool" where
  "is_str v = (case v of JStr s \<Rightarrow> True | _ \<Rightarrow> False)"

definition wf_entity :: "json \<Rightarrow> bool" where
  "wf_entity entity =
     (case py_getitem entity ''type'' of
        Inl err \<Rightarrow> False
      | Inr ty \<Rightarrow> if ty = JStr ''equity'' then has_item entity ''symbol'' else True)"

definition wf_record :: "json \<Rightarrow> bool" where
  "wf_record raw =
     ((case py_getitem raw ''entities'' of
         Inl err \<Rightarrow> False
       | Inr ents \<Rightarrow>
           (case py_iter ents of
              Inl err \<Rightarrow> False
            | Inr entities \<Rightarrow> list_all wf_entity entities))
      \<and> has_item raw ''uuid''
      \<and> has_item raw ''title''
      \<and> (case py_getitem raw ''description'' of
            Inl err \<Rightarrow> False
          | Inr long_desc \<Rightarrow> if py_truthy long_desc then True else has_item raw ''snippet'')
      \<and> has_item raw ''source''
      \<and> has_item raw ''url''
      \<and> (case py_getitem raw ''published_at'' of
            Inl err \<Rightarrow> False
          | Inr published \<Rightarrow> is_str published))"

definition wf_page :: "json \<Rightarrow> bool" where
  "wf_page page =
     (case py_getitem page ''data'' of
        Inl err \<Rightarrow> False
      | Inr data \<Rightarrow>
          (case py_iter data of
             Inl err \<Rightarrow> False
           | Inr raws \<Rightarrow> list_all wf_record raws))"

text \<open>A result of \<^verbatim>\<open>fetch_news_page\<close> that the aggregation loop gets through: it is falsy
  (a failed fetch among others), or it supports the membership test and does not
  contain \<^verbatim>\<open>'data'\<close>, or it is a page of well-formed records.\<close>

definition page_ok :: "json \<Rightarrow> bool" where
  "page_ok result =
     (if py_truthy result then
        (case py_contains_data result of
           Inl err \<Rightarrow> False
         | Inr has_data \<Rightarrow> if has_data then wf_page result else True)
      else True)"

text \<open>The articles that one result contributes, before enrichment; and an article
  with its sentiment keys removed.\<close>

definition page_articles :: "json \<Rightarrow> article list" where
  "page_articles result =
     (if py_truthy result \<and> py_contains_data result = Inr True then
        (case transform_news_data result of Inl err \<Rightarrow> [] | Inr news_data \<Rightarrow> news_data)
      else [])"

definition unenriched :: "article \<Rightarrow> article" where
  "unenriched a = a\<lparr>sentiment := None, sentiment_score := None\<rparr>"

text \<open>The kinds of values that the ordering comparisons accept (0: numbers, 1: strings,
  2: the rest), and a rank that orders the values of each of the first two kinds as
  \<open>py_lt\<close> does.\<close>

definition key_kind :: "json \<Rightarrow> nat" where
  "key_kind v = (case v of JStr s \<Rightarrow> 1 | _ \<Rightarrow> (case py_num v of Some r \<Rightarrow> 0 | None \<Rightarrow> 2))"

definition rank :: "json \<Rightarrow> real \<times> string" where
  "rank v = (case v of JStr s \<Rightarrow> (0, s) | _ \<Rightarrow> (case py_num v of Some r \<Rightarrow> (r, []) | None \<Rightarrow> (0, [])))"


definition cache_all :: "(article list \<Rightarrow> bool) \<Rightarrow> state \<Rightarrow> bool" where
  "cache_all P st = list_all (\<lambda>entry. P (fst (snd entry))) (news_cache st)"

text \<open>An article whose sentiment is one of the three labels and whose score is set; a
  score that is a number between 0 and 1; and the scores that a reply of the sentiment
  service reports for the classes of its first result.\<close>

definition sentiment_labels :: "string list" where
  "sentiment_labels = [''POSITIVE'', ''NEUTRAL'', ''NEGATIVE'']"

definition labelled :: "article \<Rightarrow> bool" where
  "labelled a =
     ((case sentiment a of None \<Rightarrow> False | Some l \<Rightarrow> l \<in> set sentiment_labels)
      \<and> sentiment_score a \<noteq> None)"

definition unit_score :: "json \<Rightarrow> bool" where
  "unit_score v = (case v of JNum r \<Rightarrow> 0 \<le> r \<and> r \<le> 1 | _ \<Rightarrow> False)"

definition unit_scored :: "article \<Rightarrow> bool" where
  "unit_scored a = (case sentiment_score a of None \<Rightarrow> False | Some v \<Rightarrow> unit_score v)"

definition reported_scores :: "http_reply \<Rightarrow> json list" where
  "reported_scores reply =
     (case reply of
        Transport_error \<Rightarrow> []
      | Response ok None \<Rightarrow> []
      | Response ok (Some result) \<Rightarrow>
          (case py_getitem0 result of
             Inl err \<Rightarrow> []
           | Inr classes \<Rightarrow>
               (case py_iter classes of
                  Inl err \<Rightarrow> []
                | Inr items \<Rightarrow>
                    concat (map (\<lambda>item. case py_getitem item ''score'' of
                                           Inl err \<Rightarrow> [] | Inr s \<Rightarrow> [s]) items))))"

text \<open>A sentiment service all of whose reported scores are numbers between 0 and 1.\<close>

definition unit_service :: "world \<Rightarrow> bool" where
  "unit_service w = (\<forall>n text. list_all unit_score (reported_scores (sentiment_api w n text)))"

definition any_world :: "world \<Rightarrow> bool" where
  "any_world w = True"

text \<open>The states of the two stores that the server can be in: the stores are empty when
  the process starts, and only the requests to \<^verbatim>\<open>/api/news\<close> and \<^verbatim>\<open>/api/news/refresh\<close> write
  to them. The parameter restricts the worlds in which the requests are served.\<close>

inductive served :: "(world \<Rightarrow> bool) \<Rightarrow> state \<Rightarrow> bool" for ok :: "world \<Rightarrow> bool" where
  served_initial: "served ok initial_state"
| served_get_news:
    "served ok st \<Longrightarrow> ok w \<Longrightarrow> served ok (fst (get_news w clk st symbols page limit))"
| served_refresh_news:
    "served ok st \<Longrightarrow> ok w \<Longrightarrow> served ok (fst (refresh_news w clk st symbols))"

text \<open>The rate-limit key of a request and the times at which it tests the limit and
  writes its marker.\<close>

fun limit_key :: "request \<Rightarrow> string" where
  "limit_key (GetNews w clk symbols page limit) = rate_limit_key symbols"
| "limit_key (RefreshNews w clk symbols) = rate_limit_refresh_key symbols"

fun limit_test_time :: "request \<Rightarrow> real" where
  "limit_test_time (GetNews w clk symbols page limit) = at_limit_test clk"
| "limit_test_time (RefreshNews w clk symbols) = at_limit_test clk"

fun limit_write_time :: "request \<Rightarrow> real" where
  "limit_write_time (GetNews w clk symbols page limit) = at_limit_write clk"
| "limit_write_time (RefreshNews w clk symbols) = at_limit_write clk"

text \<open>A store in which the first entry of the key \<open>k\<close> expires at \<open>e\<close> and has at most \<open>j\<close>
  entries behind it; and a store in which no entry of the key \<open>k\<close> expires after \<open>e\<close>.\<close>

definition holds_entry :: "nat \<Rightarrow> string \<Rightarrow> 'v \<Rightarrow> real \<Rightarrow> 'v ttl_cache \<Rightarrow> bool" where
  "holds_entry j k v e c =
     (\<exists>pre post. c = pre @ (k, v, e) # post \<and> length post \<le> j \<and> k \<notin> set (map fst pre))"

definition expired_by :: "string \<Rightarrow> real \<Rightarrow> 'v ttl_cache \<Rightarrow> bool" where
  "expired_by k e c = list_all (\<lambda>entry. fst entry = k \<longrightarrow> snd (snd entry) \<le> e) c"

text \<open>The requests of a run that pass the rate limiter, that is, are not answered with
  the status 429.\<close>

fun accepted :: "state \<Rightarrow> request list \<Rightarrow> request list" where
  "accepted st [] = []"
| "accepted st (r # rs) =
     (if snd (handle st r) = HTTPException 429 then accepted (fst (handle st r)) rs
      else r # accepted (fst (handle st r)) rs)"

section \<open>Example inputs\<close>

text \<open>A clock whose five readings are the same instant, and a world in which every
  upstream call fails.\<close>

definition clock_at :: "real \<Rightarrow> clock" where
  "clock_at t = \<lparr>at_limit_test = t, at_limit_write = t, at_cache_test = t,
                 at_cache_read = t, at_cache_write = t\<rparr>"

definition silent_world :: world where
  "silent_world = \<lparr>marketaux_token = None, news_api = (\<lambda>q. Transport_error),
                    sentiment_api = (\<lambda>n text. Transport_error), py_str = (\<lambda>v. [])\<rparr>"

text \<open>Two provider records: the first has an empty description and three entities, one
  of them not an equity; the second is the more recent one.\<close>

definition apple_record :: json where
  "apple_record = JObj
     [(''uuid'', JStr ''u1''), (''title'', JStr ''Apple''), (''description'', JStr []),
      (''snippet'', JStr ''Shares rose''), (''source'', JStr ''wire''), (''url'', JStr ''a''),
      (''published_at'', JStr ''2024-12-11''),
      (''entities'', JArr
         [JObj [(''type'', JStr ''equity''), (''symbol'', JStr ''AAPL'')],
          JObj [(''type'', JStr ''index'')],
          JObj [(''type'', JStr ''equity''), (''symbol'', JStr ''MSFT'')]])]"

definition tesla_record :: json where
  "tesla_record = JObj
     [(''uuid'', JStr ''u2''), (''title'', JStr ''Tesla''), (''description'', JStr ''Recall''),
      (''snippet'', JStr ''Cars''), (''source'', JStr ''desk''), (''url'', JStr ''t''),
      (''published_at'', JStr ''2024-12-12''),
      (''entities'', JArr [JObj [(''type'', JStr ''equity''), (''symbol'', JStr ''TSLA'')]])]"

definition example_page :: json where
  "example_page = JObj [(''data'', JArr [apple_record, tesla_record])]"

definition apple_article :: article where
  "apple_article =
     \<lparr>id_art = JStr ''u1'', title = JStr ''Apple'', description = JStr ''Shares rose'',
      source = JStr ''wire'', url = JStr ''a'', publishedAt = JStr ''2024-12-11'',
      relatedSymbols = [JStr ''AAPL'', JStr ''MSFT''],
      sentiment = None, sentiment_score = None\<rparr>"

definition tesla_article :: article where
  "tesla_article =
     \<lparr>id_art = JStr ''u2'', title = JStr ''Tesla'', description = JStr ''Recall'',
      source = JStr ''desk'', url = JStr ''t'', publishedAt = JStr ''2024-12-12'',
      relatedSymbols = [JStr ''TSLA''],
      sentiment = None, sentiment_score = None\<rparr>"

text \<open>A sentiment response with three classes, and a world in which the first page of
  news is the example page, the other three pages fail, and every text is classified
  by that response.\<close>

definition example_classes :: json where
  "example_classes = JArr [JArr
     [JObj [(''label'', JStr ''negative''), (''score'', JNum 0.1)],
      JObj [(''label'', JStr ''Positive''), (''score'', JNum 0.8)],
      JObj [(''label'', JStr ''neutral''), (''score'', JNum 0.1)]]]"

definition example_world :: world where
  "example_world =
     \<lparr>marketaux_token = None,
      news_api = (\<lambda>q. if page_param q = 1 then Response True (Some example_page)
                       else Transport_error),
      sentiment_api = (\<lambda>n text. Response True (Some example_classes)),
      py_str = (\<lambda>v. [])\<rparr>"

definition enriched :: "article \<Rightarrow> string \<Rightarrow> json \<Rightarrow> article" where
  "enriched a l s = a\<lparr>sentiment := Some l, sentiment_score := Some s\<rparr>"

definition example_fetched :: "article list" where
  "example_fetched = [enriched apple_article ''POSITIVE'' (JNum 0.8),
                      enriched tesla_article ''POSITIVE'' (JNum 0.8)]"

definition example_sorted :: "article list" where
  "example_sorted = [enriched tesla_article ''POSITIVE'' (JNum 0.8),
                     enriched apple_article ''POSITIVE'' (JNum 0.8)]"

text \<open>The state after a refresh without symbols at time 0 in the example world.\<close>

definition refreshed_state :: state where
  "refreshed_state =
     \<lparr>news_cache = [(''news:None:1:30'', example_sorted, 600)],
      rate_limit_cache = [(''rate_limit_refresh:general'', (), 10)]\<rparr>"

text \<open>A cache holding the example list under both the key of a request without symbols
  and the key of a request with empty symbols.\<close>

definition two_key_cache :: "article list ttl_cache" where
  "two_key_cache = [(''news::1:30'', example_sorted, 600), (''news:None:1:30'', example_sorted, 600)]"








text \<open>A second page whose only record was published at the same time as the first
  record of the example page, and a world that serves both pages.\<close>

definition apple_again_record :: json where
  "apple_again_record = JObj
     [(''uuid'', JStr ''u3''), (''title'', JStr ''Apple again''), (''description'', JStr ''More''),
      (''snippet'', JStr ''More''), (''source'', JStr ''wire''), (''url'', JStr ''b''),
      (''published_at'', JStr ''2024-12-11''), (''entities'', JArr [])]"

definition apple_again_article :: article where
  "apple_again_article =
     \<lparr>id_art = JStr ''u3'', title = JStr ''Apple again'', description = JStr ''More'',
      source = JStr ''wire'', url = JStr ''b'', publishedAt = JStr ''2024-12-11'',
      relatedSymbols = [], sentiment = None, sentiment_score = None\<rparr>"

definition second_page :: json where
  "second_page = JObj [(''data'', JArr [apple_again_record])]"

definition tie_world :: world where
  "tie_world =
     example_world\<lparr>news_api := (\<lambda>q. if page_param q = 1 then Response True (Some example_page)
                                   else if page_param q = 2 then Response True (Some second_page)
                                   else Transport_error)\<rparr>"

definition tie_fetched :: "article list" where
  "tie_fetched = [enriched apple_article ''POSITIVE'' (JNum 0.8),
                  enriched tesla_article ''POSITIVE'' (JNum 0.8),
                  enriched apple_again_article ''POSITIVE'' (JNum 0.8)]"

definition tie_sorted :: "article list" where
  "tie_sorted = [enriched tesla_article ''POSITIVE'' (JNum 0.8),
                 enriched apple_article ''POSITIVE'' (JNum 0.8),
                 enriched apple_again_article ''POSITIVE'' (JNum 0.8)]"

text \<open>A world whose news provider answers every query with a page that parses and whose
  only record lacks the keys the transformer reads.\<close>

definition malformed_page :: json where
  "malformed_page = JObj [(''data'', JArr [JObj [(''title'', JStr ''Untitled'')]])]"

definition malformed_world :: world where
  "malformed_world = silent_world\<lparr>news_api := (\<lambda>q. Response True (Some malformed_page))\<rparr>"

text \<open>A world whose sentiment service reports the score 7 for its only class.\<close>

definition loud_classes :: json where
  "loud_classes = JArr [JArr [JObj [(''label'', JStr ''positive''), (''score'', JNum 7)]]]"

definition loud_world :: world where
  "loud_world = example_world\<lparr>sentiment_api := (\<lambda>n text. Response True (Some loud_classes))\<rparr>"

definition loud_sorted :: "article list" where
  "loud_sorted = [enriched tesla_article ''POSITIVE'' (JNum 7),
                  enriched apple_article ''POSITIVE'' (JNum 7)]"

text \<open>Requests without symbols at the times 0, 2, 5 and 10, and a crowd of \<open>n\<close> requests at
  time 1 with the symbols \<^verbatim>\<open>x\<close>, \<^verbatim>\<open>xx\<close>, \<^verbatim>\<open>xxx\<close> and so on, all in the silent world.\<close>

definition plain_request :: "real \<Rightarrow> request" where
  "plain_request t = GetNews silent_world (clock_at t) None 1 30"

definition crowd_request :: "nat \<Rightarrow> request" where
  "crowd_request i = GetNews silent_world (clock_at 1) (Some (replicate (Suc i) CHR ''x'')) 1 30"

definition crowd :: "nat \<Rightarrow> request list" where
  "crowd n = map crowd_request [0..<n]"

text \<open>The markers that the first \<open>n\<close> requests of the crowd leave behind a marker of the
  key \<^verbatim>\<open>rate_limit:general\<close> written at time 0.\<close>

definition crowd_key :: "nat \<Rightarrow> string" where
  "crowd_key i = ''rate_limit:'' @ replicate (Suc i) CHR ''x''"

definition crowd_marker :: "nat \<Rightarrow> string \<times> unit \<times> real" where
  "crowd_marker i = (crowd_key i, (), 11)"

definition crowd_store :: "nat \<Rightarrow> unit ttl_cache" where
  "crowd_store n = drop (n + 1 - 100) ((''rate_limit:general'', (), 10) # map crowd_marker [0..<n])"

section \<open>Properties of the TTL store\<close>

lemma find_append_case:
  "find P (xs @ ys) = (case find P xs of None \<Rightarrow> find P ys | Some x \<Rightarrow> Some x)"
  by (induction xs) auto

text \<open>After the expiry and the eviction of a write, no entry of the written key is left
  in front of the new one.\<close>

lemma ttl_setitem_kept_no_key:
  "find (\<lambda>e. fst e = k)
     (if k \<in> set (map fst live) then filter (\<lambda>e. fst e \<noteq> k) live else drop n live) = None"
proof (cases "k \<in> set (map fst live)")
  case True
  then show ?thesis by (simp add: find_None_iff)
next
  case False
  have "set (drop n live) \<subseteq> set live" by (rule set_drop_subset)
  with False have "\<forall>e \<in> set (drop n live). fst e \<noteq> k" by auto
  with False show ?thesis by (auto simp: find_None_iff)
qed

lemma ttl_lookup_setitem_same:
  "ttl_lookup (ttl_setitem m ttl c now k v) now' k = (if now' < now + ttl then Some v else None)"
  unfolding ttl_lookup_def ttl_setitem_def Let_def find_append_case ttl_setitem_kept_no_key
  by simp

lemma ttl_contains_setitem_same:
  "ttl_contains (ttl_setitem m ttl c now k v) now' k = (now' < now + ttl)"
  by (simp add: ttl_contains_def ttl_lookup_setitem_same)

lemma ttl_getitem_setitem_same:
  "ttl_getitem (ttl_setitem m ttl c now k v) now' k =
     (if now' < now + ttl then Inr v else Inl KeyError)"
  by (simp add: ttl_getitem_def ttl_lookup_setitem_same)

lemma news_cache_rate_limit_cache_set [simp]:
  "news_cache (rate_limit_cache_set st t k) = news_cache st"
  by (simp add: rate_limit_cache_set_def)

text \<open>
  C8. For every state of the stores, cache key \<open>k\<close> and article list \<open>v\<close>: after \<open>v\<close> is
  written under \<open>k\<close> at time \<open>t\<close>, a read of \<open>k\<close> at a time \<open>t'\<close> returns exactly \<open>v\<close> as
  long as fewer than 600 time units have passed since the write (in particular at
  \<open>t' = t\<close>, immediately after it), and is a miss once 600 time units have passed: the
  read raises \<open>KeyError\<close> and the membership test is false.
\<close>

theorem news_cache_put_get:
  "ttl_getitem (news_cache (news_cache_set st t k v)) t' k =
     (if t' < t + 600 then Inr v else Inl KeyError)
   \<and> ttl_contains (news_cache (news_cache_set st t k v)) t' k = (t' < t + 600)"
  by (simp add: news_cache_set_def NEWS_CACHE_TTL_def ttl_getitem_setitem_same
      ttl_contains_setitem_same)

section \<open>The example inputs, evaluated\<close>

lemma clock_at_readings:
  "at_limit_test (clock_at t) = t" "at_limit_write (clock_at t) = t"
  "at_cache_test (clock_at t) = t" "at_cache_read (clock_at t) = t"
  "at_cache_write (clock_at t) = t"
  by (simp_all add: clock_at_def)

lemma fetch_silent_world: "fetch_all_news_pages silent_world symbols n = Inr []"
  by (simp add: fetch_all_news_pages_def api_results_def fetch_pages_def fetch_news_page_def
      silent_world_def)

lemma get_news_silent_initial:
  "get_news silent_world (clock_at 0) initial_state symbols 1 30 =
     (\<lparr>news_cache = [], rate_limit_cache = [(rate_limit_key symbols, (), 10)]\<rparr>, Ok [])"
  by (simp add: get_news_def fetch_silent_world initial_state_def clock_at_def ttl_contains_def
      ttl_lookup_def rate_limit_cache_set_def ttl_setitem_def RATE_LIMIT_TTL_def)

lemma refresh_news_silent_initial:
  "refresh_news silent_world (clock_at 0) initial_state symbols =
     (\<lparr>news_cache = [], rate_limit_cache = [(rate_limit_refresh_key symbols, (), 10)]\<rparr>, Ok [])"
  by (simp add: refresh_news_def fetch_silent_world initial_state_def clock_at_def
      ttl_contains_def ttl_lookup_def rate_limit_cache_set_def ttl_setitem_def RATE_LIMIT_TTL_def)

lemma transform_example_page:
  "transform_news_data example_page = Inr [apple_article, tesla_article]"
  by (simp add: transform_news_data_def example_page_def apple_record_def tesla_record_def
      transform_article_def apple_article_def tesla_article_def)

lemma sentiment_example_classes:
  "sentiment_of_result example_classes = Inr (''POSITIVE'', JNum 0.8)"
  by (simp add: sentiment_of_result_def example_classes_def py_gt_def lower_char_def
      sentiment_mapping_def)

lemma get_sentiment_example_world:
  "get_sentiment example_world n text = (''POSITIVE'', JNum 0.8)"
  by (simp add: get_sentiment_def example_world_def sentiment_example_classes)

lemma api_results_example_world:
  "api_results example_world symbols n = [example_page, JNull, JNull, JNull]"
  by (simp add: api_results_def fetch_pages_def fetch_news_page_def request_params_of_def
      example_world_def)

lemma contains_example_page:
  "py_truthy example_page \<and> py_contains_data example_page = Inr True"
  by (simp add: example_page_def)

lemma fetch_example_world:
  "fetch_all_news_pages example_world symbols n = Inr example_fetched"
  by (simp add: fetch_all_news_pages_def api_results_example_world contains_example_page
      transform_example_page get_sentiment_example_world enriched_def example_fetched_def)

lemma sort_example:
  "example_fetched \<noteq> [] \<and> py_sort_reverse publishedAt example_fetched = Inr example_sorted"
  by (simp add: py_sort_reverse_def py_sort_def enriched_def apple_article_def
      tesla_article_def example_sorted_def example_fetched_def)

lemma str_int_1_30: "str_int 1 = ''1'' \<and> str_int 30 = ''30''"
  by (simp add: str_int_def str_nat.simps digit_char_def)

lemma refresh_news_example_initial:
  "refresh_news example_world (clock_at 0) initial_state None =
     (refreshed_state, Ok example_sorted)"
  by (simp add: refresh_news_def fetch_example_world sort_example initial_state_def
      clock_at_def ttl_contains_def ttl_lookup_def rate_limit_cache_set_def ttl_setitem_def
      RATE_LIMIT_TTL_def NEWS_CACHE_TTL_def news_cache_set_def cache_key_def str_int_1_30
      rate_limit_refresh_key_def symbols_or_def refreshed_state_def)

lemma transform_second_page: "transform_news_data second_page = Inr [apple_again_article]"
  by (simp add: transform_news_data_def second_page_def apple_again_record_def
      transform_article_def apple_again_article_def)

lemma contains_second_page:
  "py_truthy second_page \<and> py_contains_data second_page = Inr True"
  by (simp add: second_page_def)

lemma get_sentiment_tie_world: "get_sentiment tie_world n text = (''POSITIVE'', JNum 0.8)"
  by (simp add: get_sentiment_def tie_world_def example_world_def sentiment_example_classes)

lemma api_results_tie_world:
  "api_results tie_world symbols n = [example_page, second_page, JNull, JNull]"
  by (simp add: api_results_def fetch_pages_def fetch_news_page_def request_params_of_def
      tie_world_def)

lemma fetch_tie_world: "fetch_all_news_pages tie_world symbols n = Inr tie_fetched"
  by (simp add: fetch_all_news_pages_def api_results_tie_world contains_example_page
      contains_second_page transform_example_page transform_second_page
      get_sentiment_tie_world enriched_def tie_fetched_def)

lemma sort_tie:
  "tie_fetched \<noteq> [] \<and> py_sort_reverse publishedAt tie_fetched = Inr tie_sorted"
  by (simp add: py_sort_reverse_def py_sort_def enriched_def apple_article_def
      tesla_article_def apple_again_article_def tie_sorted_def tie_fetched_def)

lemma initial_state_empty:
  "\<not> ttl_contains (rate_limit_cache initial_state) t k"
  "\<not> ttl_contains (news_cache initial_state) t k"
  by (simp_all add: initial_state_def ttl_contains_def ttl_lookup_def)

lemma get_news_tie_initial:
  "snd (get_news tie_world (clock_at 0) initial_state None 1 30) = Ok tie_sorted"
  by (simp add: get_news_def Let_def initial_state_empty fetch_tie_world sort_tie)


lemma refresh_news_tie_refreshed:
  "snd (refresh_news tie_world (clock_at 20) refreshed_state None) = Ok tie_sorted"
  by (simp add: refresh_news_def Let_def refreshed_state_def clock_at_readings ttl_contains_def
      ttl_lookup_def rate_limit_refresh_key_def symbols_or_def fetch_tie_world sort_tie)

lemma get_sentiment_loud_world: "get_sentiment loud_world n text = (''POSITIVE'', JNum 7)"
  by (simp add: get_sentiment_def loud_world_def sentiment_of_result_def loud_classes_def
      lower_char_def sentiment_mapping_def)

lemma api_results_loud_world:
  "api_results loud_world symbols n = [example_page, JNull, JNull, JNull]"
  by (simp add: api_results_def fetch_pages_def fetch_news_page_def request_params_of_def
      loud_world_def example_world_def)

lemma get_news_loud_initial:
  "snd (get_news loud_world (clock_at 0) initial_state None 1 30) = Ok loud_sorted"
  by (simp add: get_news_def Let_def initial_state_empty fetch_all_news_pages_def
      api_results_loud_world contains_example_page transform_example_page
      get_sentiment_loud_world py_sort_reverse_def py_sort_def apple_article_def
      tesla_article_def loud_sorted_def enriched_def)

lemma unit_service_tie_world: "unit_service tie_world"
  by (simp add: unit_service_def tie_world_def example_world_def reported_scores_def
      example_classes_def unit_score_def)

section \<open>Rate limiting and caching at the query surface\<close>

lemma get_news_429_iff:
  "snd (get_news w clk st symbols page limit) = HTTPException 429 \<longleftrightarrow>
   ttl_contains (rate_limit_cache st) (at_limit_test clk) (rate_limit_key symbols)"
  by (auto simp: get_news_def Let_def split: sum.splits if_splits bool.splits)

lemma get_news_rejected:
  "ttl_contains (rate_limit_cache st) (at_limit_test clk) (rate_limit_key symbols) \<Longrightarrow>
   get_news w clk st symbols page limit = (st, HTTPException 429)"
  by (simp add: get_news_def)

lemma rate_limit_cache_get_news:
  "snd (get_news w clk st symbols page limit) \<noteq> HTTPException 429 \<Longrightarrow>
   rate_limit_cache (fst (get_news w clk st symbols page limit)) =
     ttl_setitem 100 RATE_LIMIT_TTL (rate_limit_cache st) (at_limit_write clk)
       (rate_limit_key symbols) ()"
  by (auto simp: get_news_def Let_def rate_limit_cache_set_def news_cache_set_def
      split: sum.splits if_splits bool.splits)

lemma refresh_news_429_iff:
  "snd (refresh_news w clk st symbols) = HTTPException 429 \<longleftrightarrow>
   ttl_contains (rate_limit_cache st) (at_limit_test clk) (rate_limit_refresh_key symbols)"
  by (auto simp: refresh_news_def Let_def split: sum.splits if_splits bool.splits)

lemma refresh_news_rejected:
  "ttl_contains (rate_limit_cache st) (at_limit_test clk) (rate_limit_refresh_key symbols) \<Longrightarrow>
   refresh_news w clk st symbols = (st, HTTPException 429)"
  by (simp add: refresh_news_def)

lemma rate_limit_cache_refresh_news:
  "snd (refresh_news w clk st symbols) \<noteq> HTTPException 429 \<Longrightarrow>
   rate_limit_cache (fst (refresh_news w clk st symbols)) =
     ttl_setitem 100 RATE_LIMIT_TTL (rate_limit_cache st) (at_limit_write clk)
       (rate_limit_refresh_key symbols) ()"
  by (auto simp: refresh_news_def Let_def rate_limit_cache_set_def news_cache_set_def
      split: sum.splits if_splits bool.splits)

text \<open>The marker that an accepted request leaves is live for exactly ten time units
  from its write.\<close>

lemma get_news_marker:
  assumes "snd (get_news w clk st symbols page limit) \<noteq> HTTPException 429"
  shows "ttl_contains (rate_limit_cache (fst (get_news w clk st symbols page limit))) t
           (rate_limit_key symbols) = (t < at_limit_write clk + 10)"
  using rate_limit_cache_get_news [OF assms]
  by (simp add: ttl_contains_setitem_same RATE_LIMIT_TTL_def)

lemma refresh_news_marker:
  assumes "snd (refresh_news w clk st symbols) \<noteq> HTTPException 429"
  shows "ttl_contains (rate_limit_cache (fst (refresh_news w clk st symbols))) t
           (rate_limit_refresh_key symbols) = (t < at_limit_write clk + 10)"
  using rate_limit_cache_refresh_news [OF assms]
  by (simp add: ttl_contains_setitem_same RATE_LIMIT_TTL_def)




lemma fetch_all_news_pages_no_symbols:
  "fetch_all_news_pages w (Some []) n = fetch_all_news_pages w None n"
  by (simp add: fetch_all_news_pages_def api_results_def fetch_news_page_def
      request_params_of_def)

lemma find_Some_member: "find P xs = Some x \<Longrightarrow> P x \<and> x \<in> set xs"
  by (induction xs) (auto split: if_splits)

lemma ttl_lookup_stored:
  "ttl_lookup c now k = Some v \<Longrightarrow> \<exists>expires. (k, v, expires) \<in> set c"
  by (auto simp: ttl_lookup_def split: option.splits if_splits dest!: find_Some_member)

lemma set_ttl_setitem:
  "set (ttl_setitem m ttl c now k v) \<subseteq> insert (k, v, now + ttl) (set c)"
  by (auto simp: ttl_setitem_def Let_def dest: in_set_dropD)

lemma ttl_lookup_setitem_other:
  assumes "ttl_lookup (ttl_setitem m ttl c now k v) now' k' = Some v'" and "k' \<noteq> k"
  shows "\<exists>expires. (k', v', expires) \<in> set c"
proof -
  from ttl_lookup_stored [OF assms(1)] obtain expires
    where "(k', v', expires) \<in> set (ttl_setitem m ttl c now k v)" ..
  with set_ttl_setitem [of m ttl c now k v] assms(2) show ?thesis by auto
qed

text \<open>
  C10. A request to \<^verbatim>\<open>/api/news\<close> without symbols and one with the empty string as
  symbols have the same rate-limit key, \<^verbatim>\<open>rate_limit:general\<close>, and send the same upstream
  queries, with the empty string as symbols parameter, so that their fetches give the
  same result; their cache keys are \<^verbatim>\<open>news:None:{page}:{limit}\<close> and
  \<^verbatim>\<open>news::{page}:{limit}\<close>, distinct for all pages and limits. So an accepted request of
  either kind makes the next request of the other kind fail with the status 429 while
  its marker is live; and what the cache returns for the key of one kind after a write
  under the key of the other kind was stored under the first key before that write.
\<close>

theorem no_symbols_and_empty_symbols:
  "rate_limit_key None = ''rate_limit:general''
   \<and> rate_limit_key (Some []) = ''rate_limit:general''
   \<and> request_params_of w None page limit = request_params_of w (Some []) page limit
   \<and> symbols_param (request_params_of w None page limit) = []
   \<and> fetch_all_news_pages w (Some []) (limit div 3) = fetch_all_news_pages w None (limit div 3)
   \<and> cache_key None page limit = ''news:None:'' @ str_int page @ '':'' @ str_int limit
   \<and> cache_key (Some []) page limit = ''news::'' @ str_int page @ '':'' @ str_int limit
   \<and> cache_key None page limit \<noteq> cache_key (Some []) page' limit'
   \<and> (snd (get_news w clk st None page limit) \<noteq> HTTPException 429
        \<and> at_limit_test clk' < at_limit_write clk + 10 \<longrightarrow>
      snd (get_news w' clk' (fst (get_news w clk st None page limit)) (Some []) page' limit')
        = HTTPException 429)
   \<and> (snd (get_news w clk st (Some []) page limit) \<noteq> HTTPException 429
        \<and> at_limit_test clk' < at_limit_write clk + 10 \<longrightarrow>
      snd (get_news w' clk' (fst (get_news w clk st (Some []) page limit)) None page' limit')
        = HTTPException 429)
   \<and> (ttl_lookup (ttl_setitem m ttl c now (cache_key None page limit) v) now'
          (cache_key (Some []) page' limit') = Some v' \<longrightarrow>
        (\<exists>expires. (cache_key (Some []) page' limit', v', expires) \<in> set c))
   \<and> (ttl_lookup (ttl_setitem m ttl c now (cache_key (Some []) page limit) v) now'
          (cache_key None page' limit') = Some v' \<longrightarrow>
        (\<exists>expires. (cache_key None page' limit', v', expires) \<in> set c))"
proof -
  have keys: "rate_limit_key None = ''rate_limit:general''"
    "rate_limit_key (Some []) = ''rate_limit:general''"
    by (simp_all add: rate_limit_key_def symbols_or_def)
  have distinct: "cache_key None p l \<noteq> cache_key (Some []) p' l'" for p l p' l'
    by (simp add: cache_key_def)
  have limited: "snd (get_news w' clk' (fst (get_news w clk st s page limit)) s' page' limit')
      = HTTPException 429"
    if "snd (get_news w clk st s page limit) \<noteq> HTTPException 429"
      and "at_limit_test clk' < at_limit_write clk + 10"
      and "rate_limit_key s' = rate_limit_key s" for s s'
    using get_news_marker [OF that(1), of "at_limit_test clk'"] that(2,3)
    by (simp add: get_news_429_iff)
  show ?thesis
    using keys distinct [of page limit page' limit'] distinct [of page' limit' page limit]
      limited [of None "Some []"] limited [of "Some []" None]
      ttl_lookup_setitem_other [of m ttl c now "cache_key None page limit" v now'
        "cache_key (Some []) page' limit'" v']
      ttl_lookup_setitem_other [of m ttl c now "cache_key (Some []) page limit" v now'
        "cache_key None page' limit'" v']
    by (simp add: request_params_of_def fetch_all_news_pages_no_symbols cache_key_def)
qed

theorem no_symbols_and_empty_symbols_witness:
  "snd (get_news silent_world (clock_at 0) initial_state None 1 30) \<noteq> HTTPException 429
   \<and> snd (get_news silent_world (clock_at 5)
        (fst (get_news silent_world (clock_at 0) initial_state None 1 30)) (Some []) 1 30)
       = HTTPException 429
   \<and> snd (get_news silent_world (clock_at 0) initial_state (Some []) 1 30) \<noteq> HTTPException 429
   \<and> snd (get_news silent_world (clock_at 5)
        (fst (get_news silent_world (clock_at 0) initial_state (Some []) 1 30)) None 1 30)
       = HTTPException 429
   \<and> ttl_lookup (ttl_setitem 500 600 two_key_cache 0 (cache_key None 1 30) []) 1
        (cache_key (Some []) 1 30) = Some example_sorted
   \<and> ttl_lookup (ttl_setitem 500 600 two_key_cache 0 (cache_key (Some []) 1 30) []) 1
        (cache_key None 1 30) = Some example_sorted
   \<and> (\<exists>expires. (cache_key (Some []) 1 30, example_sorted, expires) \<in> set two_key_cache)
   \<and> (\<exists>expires. (cache_key None 1 30, example_sorted, expires) \<in> set two_key_cache)"
proof -
  have keys: "cache_key None 1 30 = ''news:None:1:30''" "cache_key (Some []) 1 30 = ''news::1:30''"
    by (simp_all add: cache_key_def str_int_1_30)
  have a: "ttl_lookup (ttl_setitem 500 600 two_key_cache 0 (cache_key None 1 30) []) 1
        (cache_key (Some []) 1 30) = Some example_sorted"
    and b: "ttl_lookup (ttl_setitem 500 600 two_key_cache 0 (cache_key (Some []) 1 30) []) 1
        (cache_key None 1 30) = Some example_sorted"
    by (simp_all add: keys two_key_cache_def ttl_setitem_def ttl_lookup_def)
  have c: "snd (get_news silent_world (clock_at 0) initial_state s 1 30) \<noteq> HTTPException 429"
    for s
    by (simp add: get_news_silent_initial)
  have d: "at_limit_test (clock_at 5) < at_limit_write (clock_at 0) + 10"
    by (simp add: clock_at_readings)
  note inst = no_symbols_and_empty_symbols [of silent_world 1 30 1 30 "clock_at 0"
      initial_state "clock_at 5" silent_world 500 600 two_key_cache 0 "[]" 1 example_sorted]
  from inst c [of None] d
  have r1: "snd (get_news silent_world (clock_at 5)
        (fst (get_news silent_world (clock_at 0) initial_state None 1 30)) (Some []) 1 30)
       = HTTPException 429"
    by blast
  from inst c [of "Some []"] d
  have r2: "snd (get_news silent_world (clock_at 5)
        (fst (get_news silent_world (clock_at 0) initial_state (Some []) 1 30)) None 1 30)
       = HTTPException 429"
    by blast
  from inst a
  have e1: "\<exists>expires. (cache_key (Some []) 1 30, example_sorted, expires) \<in> set two_key_cache"
    by blast
  from inst b
  have e2: "\<exists>expires. (cache_key None 1 30, example_sorted, expires) \<in> set two_key_cache"
    by blast
  from a b c [of None] c [of "Some []"] r1 r2 e1 e2 show ?thesis
    by blast
qed

section \<open>The rate-limit window over a run of requests\<close>

text \<open>A marker stays the first entry of its key, with one more entry behind it for
  every later write of another key, as long as those writes come before its expiry and
  the store has room; and no entry of its key outlives it.\<close>

lemma find_first_entry:
  "k \<notin> set (map fst pre) \<Longrightarrow> find (\<lambda>entry. fst entry = k) (pre @ (k, v, e) # post) = Some (k, v, e)"
  by (induction pre) auto

lemma holds_entry_lookup:
  "holds_entry j k v e c \<Longrightarrow> ttl_lookup c t k = (if t < e then Some v else None)"
  by (auto simp: holds_entry_def ttl_lookup_def find_first_entry)

lemma holds_entry_mono:
  assumes "holds_entry j k v e c" and "j \<le> j'"
  shows "holds_entry j' k v e c"
proof -
  from assms(1) obtain pre post where
    "c = pre @ (k, v, e) # post" and "length post \<le> j" and "k \<notin> set (map fst pre)"
    unfolding holds_entry_def by blast
  with assms(2) have "c = pre @ (k, v, e) # post \<and> length post \<le> j' \<and> k \<notin> set (map fst pre)"
    by simp
  then show ?thesis
    unfolding holds_entry_def by blast
qed

lemma holds_entry_setitem_same:
  "holds_entry 0 k v (now + ttl) (ttl_setitem m ttl c now k v)"
proof -
  let ?live = "filter (\<lambda>e. now < snd (snd e)) c"
  let ?kept = "if k \<in> set (map fst ?live) then filter (\<lambda>e. fst e \<noteq> k) ?live
               else drop (length ?live + 1 - m) ?live"
  have "find (\<lambda>e. fst e = k) ?kept = None"
    by (rule ttl_setitem_kept_no_key)
  then have "k \<notin> set (map fst ?kept)"
    by (auto simp: find_None_iff)
  moreover have "ttl_setitem m ttl c now k v = ?kept @ (k, v, now + ttl) # []"
    by (simp add: ttl_setitem_def Let_def)
  ultimately show ?thesis
    unfolding holds_entry_def by (intro exI [of _ ?kept] exI [of _ "[]"]) simp
qed

lemma holds_entry_setitem_other:
  assumes "holds_entry j k v e c" and "k' \<noteq> k" and "now < e" and "j + 2 \<le> m"
  shows "holds_entry (Suc j) k v e (ttl_setitem m ttl c now k' v')"
proof -
  from assms(1) obtain pre post where
    c: "c = pre @ (k, v, e) # post" and post: "length post \<le> j" and pre: "k \<notin> set (map fst pre)"
    unfolding holds_entry_def by blast
  let ?p = "\<lambda>e. now < snd (snd e)"
  let ?live = "filter ?p c"
  have live: "?live = filter ?p pre @ (k, v, e) # filter ?p post"
    using assms(3) by (simp add: c)
  have pre': "k \<notin> set (map fst (filter ?p pre))"
    using pre by auto
  have post': "length (filter ?p post) \<le> j"
    using post length_filter_le [of ?p post] by linarith
  show ?thesis
  proof (cases "k' \<in> set (map fst ?live)")
    case True
    let ?q = "\<lambda>e. fst e \<noteq> k'"
    have "ttl_setitem m ttl c now k' v' =
        filter ?q (filter ?p pre) @ (k, v, e) # (filter ?q (filter ?p post) @ [(k', v', now + ttl)])"
      unfolding ttl_setitem_def Let_def if_P [OF True] using assms(2) by (simp add: live)
    moreover have "length (filter ?q (filter ?p post) @ [(k', v', now + ttl)]) \<le> Suc j"
      using post' length_filter_le [of ?q "filter ?p post"] by simp
    moreover have "k \<notin> set (map fst (filter ?q (filter ?p pre)))"
      using pre by auto
    ultimately show ?thesis
      unfolding holds_entry_def by blast
  next
    case False
    let ?d = "length ?live + 1 - m"
    have d: "?d \<le> length (filter ?p pre)"
      using post' assms(4) by (simp add: live)
    then have "drop ?d ?live = drop ?d (filter ?p pre) @ (k, v, e) # filter ?p post"
      by (simp add: live)
    then have "ttl_setitem m ttl c now k' v' =
        drop ?d (filter ?p pre) @ (k, v, e) # (filter ?p post @ [(k', v', now + ttl)])"
      unfolding ttl_setitem_def Let_def if_not_P [OF False] by simp
    moreover have "length (filter ?p post @ [(k', v', now + ttl)]) \<le> Suc j"
      using post' by simp
    moreover have "k \<notin> set (map fst (drop ?d (filter ?p pre)))"
      using pre' set_drop_subset [of ?d "filter ?p pre"] by auto
    ultimately show ?thesis
      unfolding holds_entry_def by blast
  qed
qed

lemma expired_by_setitem_same:
  "expired_by k (now + ttl) (ttl_setitem m ttl c now k v)"
proof -
  have "find (\<lambda>e. fst e = k)
      (if k \<in> set (map fst (filter (\<lambda>e. now < snd (snd e)) c))
       then filter (\<lambda>e. fst e \<noteq> k) (filter (\<lambda>e. now < snd (snd e)) c)
       else drop (length (filter (\<lambda>e. now < snd (snd e)) c) + 1 - m)
              (filter (\<lambda>e. now < snd (snd e)) c)) = None"
    by (rule ttl_setitem_kept_no_key)
  then show ?thesis
    by (auto simp: expired_by_def ttl_setitem_def Let_def list_all_iff find_None_iff)
qed

lemma expired_by_setitem_other:
  "expired_by k e c \<Longrightarrow> k' \<noteq> k \<Longrightarrow> expired_by k e (ttl_setitem m ttl c now k' v')"
  using set_ttl_setitem [of m ttl c now k' v'] by (auto simp: expired_by_def list_all_iff)

lemma expired_by_lookup:
  "expired_by k e c \<Longrightarrow> e \<le> t \<Longrightarrow> ttl_lookup c t k = None"
  by (auto simp: expired_by_def ttl_lookup_def list_all_iff split: option.splits
      dest!: find_Some_member)


lemma handle_429_iff:
  "snd (handle st r) = HTTPException 429 \<longleftrightarrow>
   ttl_contains (rate_limit_cache st) (limit_test_time r) (limit_key r)"
  by (cases r) (simp_all add: get_news_429_iff refresh_news_429_iff)

lemma handle_rejected:
  "ttl_contains (rate_limit_cache st) (limit_test_time r) (limit_key r) \<Longrightarrow>
   handle st r = (st, HTTPException 429)"
  by (cases r) (simp_all add: get_news_rejected refresh_news_rejected)

lemma rate_limit_cache_handle:
  "snd (handle st r) \<noteq> HTTPException 429 \<Longrightarrow>
   rate_limit_cache (fst (handle st r)) =
     ttl_setitem 100 RATE_LIMIT_TTL (rate_limit_cache st) (limit_write_time r) (limit_key r) ()"
  by (cases r) (simp_all add: rate_limit_cache_get_news rate_limit_cache_refresh_news)

lemma serve_holds_entry:
  "holds_entry j k () e (rate_limit_cache st) \<Longrightarrow>
   \<forall>r\<in>set (accepted st others). limit_key r \<noteq> k \<and> limit_write_time r < e \<Longrightarrow>
   j + length (accepted st others) < 100 \<Longrightarrow>
   holds_entry (j + length (accepted st others)) k () e (rate_limit_cache (serve st others))"
proof (induction others arbitrary: st j)
  case Nil
  then show ?case by simp
next
  case (Cons r rs)
  show ?case
  proof (cases "snd (handle st r) = HTTPException 429")
    case True
    then have "handle st r = (st, HTTPException 429)"
      by (simp add: handle_429_iff handle_rejected)
    with Cons True show ?thesis
      by simp
  next
    case False
    let ?st' = "fst (handle st r)"
    have acc: "accepted st (r # rs) = r # accepted ?st' rs"
      using False by simp
    have "holds_entry (Suc j) k () e
        (ttl_setitem 100 RATE_LIMIT_TTL (rate_limit_cache st) (limit_write_time r) (limit_key r) ())"
      using Cons.prems(1) Cons.prems(2,3) [unfolded acc]
      by (intro holds_entry_setitem_other) simp_all
    then have "holds_entry (Suc j) k () e (rate_limit_cache ?st')"
      by (simp add: rate_limit_cache_handle [OF False])
    then have "holds_entry (Suc j + length (accepted ?st' rs)) k () e
        (rate_limit_cache (serve ?st' rs))"
      using Cons.prems(2,3) [unfolded acc] by (intro Cons.IH) simp_all
    then show ?thesis
      using False by simp
  qed
qed

lemma serve_expired_by:
  "expired_by k e (rate_limit_cache st) \<Longrightarrow>
   \<forall>r\<in>set (accepted st others). limit_key r \<noteq> k \<Longrightarrow>
   expired_by k e (rate_limit_cache (serve st others))"
proof (induction others arbitrary: st)
  case Nil
  then show ?case by simp
next
  case (Cons r rs)
  show ?case
  proof (cases "snd (handle st r) = HTTPException 429")
    case True
    then have "handle st r = (st, HTTPException 429)"
      by (simp add: handle_429_iff handle_rejected)
    with Cons True show ?thesis
      by simp
  next
    case False
    let ?st' = "fst (handle st r)"
    have acc: "accepted st (r # rs) = r # accepted ?st' rs"
      using False by simp
    have "expired_by k e
        (ttl_setitem 100 RATE_LIMIT_TTL (rate_limit_cache st) (limit_write_time r) (limit_key r) ())"
      using Cons.prems(1) Cons.prems(2) [unfolded acc]
      by (intro expired_by_setitem_other) simp_all
    then have "expired_by k e (rate_limit_cache ?st')"
      by (simp add: rate_limit_cache_handle [OF False])
    then have "expired_by k e (rate_limit_cache (serve ?st' rs))"
      using Cons.prems(2) [unfolded acc] by (intro Cons.IH) simp_all
    then show ?thesis
      by simp
  qed
qed

text \<open>The run of the examples: a request without symbols at time 0, then the crowd at
  time 1. Every request of the crowd passes the limiter and leaves its marker; from the
  hundredth on, each write evicts the oldest marker.\<close>

lemma get_news_silent:
  "news_cache st = [] \<Longrightarrow>
   get_news silent_world clk st symbols page limit =
     (if ttl_contains (rate_limit_cache st) (at_limit_test clk) (rate_limit_key symbols)
      then (st, HTTPException 429)
      else (rate_limit_cache_set st (at_limit_write clk) (rate_limit_key symbols), Ok []))"
  by (simp add: get_news_def Let_def fetch_silent_world ttl_contains_def ttl_lookup_def
      rate_limit_cache_set_def)

lemma ttl_lookup_absent: "k \<notin> fst ` set c \<Longrightarrow> ttl_lookup c t k = None"
  by (auto simp: ttl_lookup_def find_None_iff split: option.splits dest!: find_Some_member)

lemma ttl_setitem_fresh:
  assumes "\<forall>entry\<in>set c. now < snd (snd entry)" and "k \<notin> fst ` set c"
  shows "ttl_setitem m ttl c now k v = drop (length c + 1 - m) c @ [(k, v, now + ttl)]"
proof -
  have "filter (\<lambda>e. now < snd (snd e)) c = c"
    using assms(1) by (simp add: filter_id_conv)
  then show ?thesis
    using assms(2) by (simp add: ttl_setitem_def Let_def)
qed

lemma serve_append: "serve st (rs @ rs') = serve (serve st rs) rs'"
  by (induction rs arbitrary: st) simp_all

lemma crowd_Suc: "crowd (Suc n) = crowd n @ [crowd_request n]"
  by (simp add: crowd_def)

lemma crowd_key_inject: "crowd_key i = crowd_key j \<Longrightarrow> i = j"
proof -
  assume "crowd_key i = crowd_key j"
  then have "length (crowd_key i) = length (crowd_key j)"
    by simp
  then show "i = j"
    by (simp add: crowd_key_def)
qed

lemma crowd_key_not_general: "crowd_key i \<noteq> ''rate_limit:general''"
  by (simp add: crowd_key_def)

lemma fst_crowd_marker: "fst (crowd_marker i) = crowd_key i"
  by (simp add: crowd_marker_def crowd_key_def)

lemma snd_crowd_marker: "snd (crowd_marker i) = ((), 11)"
  by (simp add: crowd_marker_def)

lemma crowd_store_subset:
  "set (crowd_store n) \<subseteq> insert (''rate_limit:general'', (), 10) (crowd_marker ` {0..<n})"
proof -
  have "set (crowd_store n) \<subseteq> set ((''rate_limit:general'', (), 10) # map crowd_marker [0..<n])"
    unfolding crowd_store_def by (rule set_drop_subset)
  then show ?thesis
    by simp
qed

lemma crowd_store_live: "\<forall>entry\<in>set (crowd_store n). 1 < snd (snd entry)"
proof
  fix entry
  assume "entry \<in> set (crowd_store n)"
  with crowd_store_subset [of n]
  have "entry = (''rate_limit:general'', (), 10) \<or> entry \<in> crowd_marker ` {0..<n}"
    by blast
  then show "1 < snd (snd entry)"
    by (auto simp only: snd_crowd_marker snd_conv)
qed

lemma crowd_key_fresh: "crowd_key n \<notin> fst ` set (crowd_store n)"
proof
  assume "crowd_key n \<in> fst ` set (crowd_store n)"
  then obtain entry where entry: "entry \<in> set (crowd_store n)" and key: "fst entry = crowd_key n"
    by force
  from entry crowd_store_subset [of n]
  have "entry = (''rate_limit:general'', (), 10) \<or> entry \<in> crowd_marker ` {0..<n}"
    by blast
  then show False
  proof
    assume "entry = (''rate_limit:general'', (), 10)"
    with key have "crowd_key n = ''rate_limit:general''"
      by (simp only: fst_conv)
    then show False
      by (simp only: crowd_key_not_general)
  next
    assume "entry \<in> crowd_marker ` {0..<n}"
    then obtain i where "i < n" and "entry = crowd_marker i"
      by auto
    with key have "crowd_key i = crowd_key n"
      by (simp only: fst_crowd_marker)
    then have "i = n"
      by (rule crowd_key_inject)
    with \<open>i < n\<close> show False
      by simp
  qed
qed


lemma limit_key_crowd_request: "limit_key (crowd_request i) = crowd_key i"
  by (simp add: crowd_request_def rate_limit_key_def symbols_or_def crowd_key_def)

lemma crowd_request_times:
  "limit_test_time (crowd_request i) = 1" "limit_write_time (crowd_request i) = 1"
  by (simp_all add: crowd_request_def clock_at_readings)

lemma length_crowd_store: "length (crowd_store n) = min (Suc n) 100"
  by (simp add: crowd_store_def)

lemma crowd_store_Suc:
  "drop (length (crowd_store n) + 1 - 100) (crowd_store n) @ [crowd_marker n] = crowd_store (Suc n)"
proof -
  let ?all = "(''rate_limit:general'', (), 10) # map crowd_marker [0..<n]"
  have "length (crowd_store n) + 1 - 100 + (n + 1 - 100) = Suc n + 1 - 100"
    by (simp add: length_crowd_store)
  moreover have "drop d (crowd_store n) = drop (d + (n + 1 - 100)) ?all" for d
    by (simp only: crowd_store_def drop_drop)
  ultimately have "drop (length (crowd_store n) + 1 - 100) (crowd_store n) =
      drop (Suc n + 1 - 100) ?all"
    by simp
  moreover have "crowd_store (Suc n) = drop (Suc n + 1 - 100) ?all @ [crowd_marker n]"
  proof -
    have "drop (Suc n + 1 - 100) (?all @ [crowd_marker n]) =
        drop (Suc n + 1 - 100) ?all @ [crowd_marker n]"
      by (subst drop_append) simp
    then show ?thesis
      by (simp add: crowd_store_def)
  qed
  ultimately show ?thesis
    by simp
qed

lemma handle_crowd_request:
  "handle \<lparr>news_cache = [], rate_limit_cache = crowd_store n\<rparr> (crowd_request n) =
     (\<lparr>news_cache = [], rate_limit_cache = crowd_store (Suc n)\<rparr>, Ok [])"
proof -
  let ?st = "\<lparr>news_cache = [], rate_limit_cache = crowd_store n\<rparr>"
  have absent: "\<not> ttl_contains (crowd_store n) 1 (crowd_key n)"
    by (simp add: ttl_contains_def ttl_lookup_absent crowd_key_fresh)
  have "ttl_setitem 100 10 (crowd_store n) 1 (crowd_key n) () =
      drop (length (crowd_store n) + 1 - 100) (crowd_store n) @ [(crowd_key n, (), 1 + 10)]"
    using crowd_store_live crowd_key_fresh by (rule ttl_setitem_fresh)
  also have "(crowd_key n, (), 1 + 10 :: real) = crowd_marker n"
    by (simp add: crowd_marker_def crowd_key_def)
  finally have written: "ttl_setitem 100 10 (crowd_store n) 1 (crowd_key n) () = crowd_store (Suc n)"
    by (simp only: crowd_store_Suc)
  have "handle ?st (crowd_request n) =
      get_news silent_world (clock_at 1) ?st (Some (replicate (Suc n) CHR ''x'')) 1 30"
    by (simp add: crowd_request_def)
  also have "rate_limit_key (Some (replicate (Suc n) CHR ''x'')) = crowd_key n"
    using limit_key_crowd_request [of n] by (simp add: crowd_request_def)
  have "get_news silent_world (clock_at 1) ?st (Some (replicate (Suc n) CHR ''x'')) 1 30 =
      (rate_limit_cache_set ?st 1 (crowd_key n), Ok [])"
    using absent
    by (simp only: get_news_silent [of ?st, simplified] clock_at_readings
        \<open>rate_limit_key (Some (replicate (Suc n) CHR ''x'')) = crowd_key n\<close> if_False)
  moreover have "rate_limit_cache_set ?st 1 (crowd_key n) =
      \<lparr>news_cache = [], rate_limit_cache = crowd_store (Suc n)\<rparr>"
    by (simp add: rate_limit_cache_set_def RATE_LIMIT_TTL_def written)
  ultimately show ?thesis
    by (simp add: crowd_request_def)
qed

lemma serve_crowd:
  "serve \<lparr>news_cache = [], rate_limit_cache = [(''rate_limit:general'', (), 10)]\<rparr> (crowd n) =
     \<lparr>news_cache = [], rate_limit_cache = crowd_store n\<rparr>"
proof (induction n)
  case 0
  show ?case
    by (simp add: crowd_def crowd_store_def)
next
  case (Suc n)
  show ?case
    by (simp only: crowd_Suc serve_append Suc serve.simps handle_crowd_request fst_conv)
qed

lemma crowd_store_100: "crowd_store 100 = map crowd_marker [0..<100]"
  by (simp add: crowd_store_def)

lemma general_evicted: "ttl_lookup (crowd_store 100) t ''rate_limit:general'' = None"
proof -
  have "''rate_limit:general'' \<notin> fst ` set (crowd_store 100)"
    unfolding crowd_store_100 using crowd_key_not_general [THEN not_sym]
    by (auto simp: fst_crowd_marker image_image simp del: upt.simps)
  then show ?thesis
    by (rule ttl_lookup_absent)
qed


lemma limit_key_plain_request: "limit_key (plain_request t) = ''rate_limit:general''"
  by (simp add: plain_request_def rate_limit_key_def symbols_or_def)

lemma plain_request_times:
  "limit_test_time (plain_request t) = t" "limit_write_time (plain_request t) = t"
  by (simp_all add: plain_request_def clock_at_readings)

lemma handle_plain_initial:
  "handle initial_state (plain_request 0) =
     (\<lparr>news_cache = [], rate_limit_cache = [(''rate_limit:general'', (), 10)]\<rparr>, Ok [])"
  by (simp add: plain_request_def get_news_silent_initial rate_limit_key_def symbols_or_def)

lemma accepted_append:
  "accepted st (rs @ rs') = accepted st rs @ accepted (serve st rs) rs'"
  by (induction rs arbitrary: st) simp_all

lemma accepted_crowd:
  "accepted \<lparr>news_cache = [], rate_limit_cache = [(''rate_limit:general'', (), 10)]\<rparr> (crowd n) =
     crowd n"
proof (induction n)
  case 0
  show ?case
    by (simp add: crowd_def)
next
  case (Suc n)
  show ?case
    by (simp add: crowd_Suc accepted_append Suc serve_crowd handle_crowd_request)
qed

lemma crowd_keys: "list_all (\<lambda>r. limit_key r \<noteq> ''rate_limit:general'') (crowd n)"
  by (simp add: crowd_def list_all_iff limit_key_crowd_request crowd_key_not_general)

lemma crowd_write_times: "list_all (\<lambda>r. limit_write_time r = 1) (crowd n)"
  by (simp add: crowd_def list_all_iff crowd_request_times)

lemma length_crowd: "length (crowd n) = n"
  by (simp add: crowd_def)

lemma handle_plain_crowded:
  "handle \<lparr>news_cache = [], rate_limit_cache = crowd_store 100\<rparr> (plain_request t) =
     (\<lparr>news_cache = [],
       rate_limit_cache = ttl_setitem 100 10 (crowd_store 100) t ''rate_limit:general'' ()\<rparr>,
      Ok [])"
  by (simp add: plain_request_def get_news_silent clock_at_readings ttl_contains_def
      general_evicted rate_limit_key_def symbols_or_def rate_limit_cache_set_def
      RATE_LIMIT_TTL_def)

text \<open>
  C7, as amended. For both endpoints and every rate-limit key: when a request passed the
  rate limiter (was not answered with the status 429) and wrote its marker at time \<open>t\<close>,
  and none of the requests that passed the limiter after it had the same key, then the
  next request with that key is rejected with the status 429, the stores left as they
  are, if it tests the limit before \<open>t + 10\<close> and at most 99 requests passed the limiter in
  between, each writing its marker before \<open>t + 10\<close>; and it is not rejected if it tests
  the limit at \<open>t + 10\<close> or later. The bound 99 is that of the store, which holds 100
  markers.
\<close>

theorem rate_limit_window:
  "snd (handle st first) \<noteq> HTTPException 429 \<and>
   limit_key second = limit_key first \<and>
   (\<forall>r\<in>set (accepted (fst (handle st first)) others). limit_key r \<noteq> limit_key first) \<longrightarrow>
     ((\<forall>r\<in>set (accepted (fst (handle st first)) others).
          limit_write_time r < limit_write_time first + 10) \<and>
      length (accepted (fst (handle st first)) others) \<le> 99 \<and>
      limit_test_time second < limit_write_time first + 10 \<longrightarrow>
        handle (serve (fst (handle st first)) others) second
          = (serve (fst (handle st first)) others, HTTPException 429))
   \<and> (limit_write_time first + 10 \<le> limit_test_time second \<longrightarrow>
        snd (handle (serve (fst (handle st first)) others) second) \<noteq> HTTPException 429)"
proof (intro impI conjI; elim conjE)
  let ?st1 = "fst (handle st first)"
  let ?k = "limit_key first"
  let ?e = "limit_write_time first + 10"
  assume passed: "snd (handle st first) \<noteq> HTTPException 429"
    and same: "limit_key second = ?k"
    and other: "\<forall>r\<in>set (accepted ?st1 others). limit_key r \<noteq> ?k"
  have store: "rate_limit_cache ?st1 =
      ttl_setitem 100 10 (rate_limit_cache st) (limit_write_time first) ?k ()"
    using rate_limit_cache_handle [OF passed] by (simp add: RATE_LIMIT_TTL_def)
  show "handle (serve ?st1 others) second = (serve ?st1 others, HTTPException 429)"
    if early: "\<forall>r\<in>set (accepted ?st1 others). limit_write_time r < ?e"
      and few: "length (accepted ?st1 others) \<le> 99"
      and inside: "limit_test_time second < ?e"
  proof -
    have "holds_entry 0 ?k () ?e (rate_limit_cache ?st1)"
      unfolding store by (rule holds_entry_setitem_same)
    then have "holds_entry (0 + length (accepted ?st1 others)) ?k () ?e
        (rate_limit_cache (serve ?st1 others))"
      using other early few by (intro serve_holds_entry) simp_all
    then have "ttl_contains (rate_limit_cache (serve ?st1 others)) (limit_test_time second) ?k"
      using inside by (simp add: ttl_contains_def holds_entry_lookup)
    then show ?thesis
      by (intro handle_rejected) (simp add: same)
  qed
  show "snd (handle (serve ?st1 others) second) \<noteq> HTTPException 429"
    if late: "?e \<le> limit_test_time second"
  proof -
    have "expired_by ?k ?e (rate_limit_cache ?st1)"
      unfolding store by (rule expired_by_setitem_same)
    then have "expired_by ?k ?e (rate_limit_cache (serve ?st1 others))"
      using other by (rule serve_expired_by)
    then have "\<not> ttl_contains (rate_limit_cache (serve ?st1 others)) (limit_test_time second) ?k"
      using late by (simp add: ttl_contains_def expired_by_lookup)
    then show ?thesis
      by (simp add: handle_429_iff same)
  qed
qed

theorem rate_limit_window_witness:
  "snd (handle initial_state (plain_request 0)) = Ok []
   \<and> accepted (fst (handle initial_state (plain_request 0))) (crowd 2) = crowd 2
   \<and> handle (serve (fst (handle initial_state (plain_request 0))) (crowd 2)) (plain_request 5)
       = (serve (fst (handle initial_state (plain_request 0))) (crowd 2), HTTPException 429)
   \<and> snd (handle (serve (fst (handle initial_state (plain_request 0))) (crowd 2))
        (plain_request 10)) \<noteq> HTTPException 429"
  using
    rate_limit_window [of initial_state "plain_request 0" "plain_request 5" "crowd 2"]
    rate_limit_window [of initial_state "plain_request 0" "plain_request 10" "crowd 2"]
    crowd_keys [of 2] crowd_write_times [of 2]
  by (simp add: handle_plain_initial accepted_crowd limit_key_plain_request plain_request_times
      length_crowd list_all_iff)

text \<open>The claim as stated fails: after the request without symbols at time 0, the 100
  requests of the crowd pass the limiter at time 1, the last of them evicts the marker
  written at time 0, and the request without symbols at time 2 is answered, not
  rejected.\<close>

theorem marker_evicted_by_crowd:
  "snd (handle initial_state (plain_request 0)) = Ok []
   \<and> limit_write_time (plain_request 0) = 0
   \<and> limit_key (plain_request 2) = limit_key (plain_request 0)
   \<and> limit_test_time (plain_request 2) = 2
   \<and> list_all (\<lambda>r. limit_key r \<noteq> limit_key (plain_request 0)) (crowd 100)
   \<and> snd (handle (serve (fst (handle initial_state (plain_request 0))) (crowd 100))
        (plain_request 2)) = Ok []"
  using crowd_keys [of 100]
  by (simp add: handle_plain_initial limit_key_plain_request plain_request_times serve_crowd
      handle_plain_crowded)

section \<open>Properties of the article transformer\<close>

lemma sum_case_Inr_iff:
  "(case m of Inl e \<Rightarrow> Inl e | Inr x \<Rightarrow> f x) = Inr y \<longleftrightarrow> (\<exists>x. m = Inr x \<and> f x = Inr y)"
  by (cases m) auto

lemma related_symbols_equities:
  "related_symbols entities = Inr symbols \<Longrightarrow>
   map Inr symbols =
     map (\<lambda>e. py_getitem e ''symbol'')
       (filter (\<lambda>e. py_getitem e ''type'' = Inr (JStr ''equity'')) entities)"
proof (induction entities arbitrary: symbols)
  case Nil
  then show ?case by simp
next
  case (Cons entity entities)
  then show ?case
    by (auto split: sum.splits if_splits)
qed

text \<open>The transformer returns an article exactly when every read of the loop body
  succeeds, and the article holds what was read.\<close>

lemma transform_article_Inr_iff:
  "transform_article raw = Inr a \<longleftrightarrow>
     (\<exists>ents entities related uuid ttl long_desc desc src link published.
        py_getitem raw ''entities'' = Inr ents
      \<and> py_iter ents = Inr entities
      \<and> related_symbols entities = Inr related
      \<and> py_getitem raw ''uuid'' = Inr uuid
      \<and> py_getitem raw ''title'' = Inr ttl
      \<and> py_getitem raw ''description'' = Inr long_desc
      \<and> (if py_truthy long_desc then Inr long_desc else py_getitem raw ''snippet'') = Inr desc
      \<and> py_getitem raw ''source'' = Inr src
      \<and> py_getitem raw ''url'' = Inr link
      \<and> py_getitem raw ''published_at'' = Inr published
      \<and> a = \<lparr>id_art = uuid, title = ttl, description = desc, source = src, url = link,
             publishedAt = published, relatedSymbols = related,
             sentiment = None, sentiment_score = None\<rparr>)"
  unfolding transform_article_def sum_case_Inr_iff by auto

lemma transform_article_fields:
  assumes "transform_article raw = Inr a"
  shows "\<exists>long_desc ents entities.
      py_getitem raw ''description'' = Inr long_desc
    \<and> (if py_truthy long_desc then description a = long_desc
        else py_getitem raw ''snippet'' = Inr (description a))
    \<and> py_getitem raw ''entities'' = Inr ents
    \<and> py_iter ents = Inr entities
    \<and> map Inr (relatedSymbols a) =
        map (\<lambda>e. py_getitem e ''symbol'')
          (filter (\<lambda>e. py_getitem e ''type'' = Inr (JStr ''equity'')) entities)"
proof -
  from assms [unfolded transform_article_Inr_iff]
  obtain ents entities related uuid ttl long_desc desc src link published where
    e: "py_getitem raw ''entities'' = Inr ents" "py_iter ents = Inr entities"
      "related_symbols entities = Inr related"
    and d: "py_getitem raw ''description'' = Inr long_desc"
      "(if py_truthy long_desc then Inr long_desc else py_getitem raw ''snippet'') = Inr desc"
    and a: "a = \<lparr>id_art = uuid, title = ttl, description = desc, source = src, url = link,
             publishedAt = published, relatedSymbols = related,
             sentiment = None, sentiment_score = None\<rparr>"
    by blast
  from d(2) a have "if py_truthy long_desc then description a = long_desc
      else py_getitem raw ''snippet'' = Inr (description a)"
    by (simp split: if_splits)
  moreover from related_symbols_equities [OF e(3)] a
  have "map Inr (relatedSymbols a) =
      map (\<lambda>e. py_getitem e ''symbol'')
        (filter (\<lambda>e. py_getitem e ''type'' = Inr (JStr ''equity'')) entities)"
    by simp
  ultimately show ?thesis using e(1,2) d(1) by blast
qed

lemma transform_articles_each:
  "transform_articles raws = Inr as \<Longrightarrow>
   list_all2 (\<lambda>raw a. transform_article raw = Inr a) raws as"
  by (induction raws arbitrary: as) (auto split: sum.splits)

lemma transform_news_data_Inr_iff:
  "transform_news_data page = Inr as \<longleftrightarrow>
     (\<exists>data raws. py_getitem page ''data'' = Inr data \<and> py_iter data = Inr raws
        \<and> transform_articles raws = Inr as)"
  unfolding transform_news_data_def sum_case_Inr_iff by simp

text \<open>
  C5. For every raw provider page on which the transformer returns: its articles are, in
  order, one for each record of the page's data; the description of each is the
  record's description when that is truthy (for a string: not empty) and the record's
  snippet otherwise; and its related symbols are exactly the symbols of those entities
  of the record whose type is \<open>equity\<close>, in the order of the entity list, so that no
  entity of another type contributes.
\<close>

theorem transform_description_and_symbols:
  "transform_news_data page = Inr as \<longrightarrow>
     (\<exists>data raws.
        py_getitem page ''data'' = Inr data \<and> py_iter data = Inr raws
      \<and> list_all2
          (\<lambda>raw a. \<exists>long_desc ents entities.
               py_getitem raw ''description'' = Inr long_desc
             \<and> (if py_truthy long_desc then description a = long_desc
                 else py_getitem raw ''snippet'' = Inr (description a))
             \<and> py_getitem raw ''entities'' = Inr ents
             \<and> py_iter ents = Inr entities
             \<and> map Inr (relatedSymbols a) =
                 map (\<lambda>e. py_getitem e ''symbol'')
                   (filter (\<lambda>e. py_getitem e ''type'' = Inr (JStr ''equity'')) entities))
          raws as)
   \<and> py_truthy (JStr s) = (s \<noteq> [])"
proof (intro conjI impI)
  assume "transform_news_data page = Inr as"
  then obtain data raws where
    page: "py_getitem page ''data'' = Inr data" "py_iter data = Inr raws"
    and "transform_articles raws = Inr as"
    unfolding transform_news_data_Inr_iff by blast
  from transform_articles_each [OF this(3)]
  have "list_all2
          (\<lambda>raw a. \<exists>long_desc ents entities.
               py_getitem raw ''description'' = Inr long_desc
             \<and> (if py_truthy long_desc then description a = long_desc
                 else py_getitem raw ''snippet'' = Inr (description a))
             \<and> py_getitem raw ''entities'' = Inr ents
             \<and> py_iter ents = Inr entities
             \<and> map Inr (relatedSymbols a) =
                 map (\<lambda>e. py_getitem e ''symbol'')
                   (filter (\<lambda>e. py_getitem e ''type'' = Inr (JStr ''equity'')) entities))
          raws as"
    by (rule list_all2_mono) (rule transform_article_fields)
  with page show "\<exists>data raws.
        py_getitem page ''data'' = Inr data \<and> py_iter data = Inr raws
      \<and> list_all2
          (\<lambda>raw a. \<exists>long_desc ents entities.
               py_getitem raw ''description'' = Inr long_desc
             \<and> (if py_truthy long_desc then description a = long_desc
                 else py_getitem raw ''snippet'' = Inr (description a))
             \<and> py_getitem raw ''entities'' = Inr ents
             \<and> py_iter ents = Inr entities
             \<and> map Inr (relatedSymbols a) =
                 map (\<lambda>e. py_getitem e ''symbol'')
                   (filter (\<lambda>e. py_getitem e ''type'' = Inr (JStr ''equity'')) entities))
          raws as"
    by blast
qed simp

theorem transform_description_and_symbols_witness:
  "transform_news_data example_page = Inr [apple_article, tesla_article]
   \<and> py_getitem apple_record ''description'' = Inr (JStr [])
   \<and> py_getitem apple_record ''snippet'' = Inr (description apple_article)
   \<and> py_getitem tesla_record ''description'' = Inr (description tesla_article)
   \<and> py_truthy (description tesla_article)
   \<and> relatedSymbols apple_article = [JStr ''AAPL'', JStr ''MSFT'']
   \<and> relatedSymbols tesla_article = [JStr ''TSLA'']"
proof -
  have page: "py_getitem example_page ''data'' = Inr (JArr [apple_record, tesla_record])"
    by (simp add: example_page_def)
  have apple: "py_getitem apple_record ''description'' = Inr (JStr [])"
    "py_getitem apple_record ''entities'' = Inr (JArr
         [JObj [(''type'', JStr ''equity''), (''symbol'', JStr ''AAPL'')],
          JObj [(''type'', JStr ''index'')],
          JObj [(''type'', JStr ''equity''), (''symbol'', JStr ''MSFT'')]])"
    by (simp_all add: apple_record_def)
  have tesla: "py_getitem tesla_record ''description'' = Inr (JStr ''Recall'')"
    "py_getitem tesla_record ''entities'' =
       Inr (JArr [JObj [(''type'', JStr ''equity''), (''symbol'', JStr ''TSLA'')]])"
    by (simp_all add: tesla_record_def)
  from transform_description_and_symbols [of example_page "[apple_article, tesla_article]"]
    transform_example_page
  obtain data raws where
    "py_getitem example_page ''data'' = Inr data" "py_iter data = Inr raws"
    and each: "list_all2
          (\<lambda>raw a. \<exists>long_desc ents entities.
               py_getitem raw ''description'' = Inr long_desc
             \<and> (if py_truthy long_desc then description a = long_desc
                 else py_getitem raw ''snippet'' = Inr (description a))
             \<and> py_getitem raw ''entities'' = Inr ents
             \<and> py_iter ents = Inr entities
             \<and> map Inr (relatedSymbols a) =
                 map (\<lambda>e. py_getitem e ''symbol'')
                   (filter (\<lambda>e. py_getitem e ''type'' = Inr (JStr ''equity'')) entities))
          raws [apple_article, tesla_article]"
    by blast
  with page have "raws = [apple_record, tesla_record]" by simp
  with each apple tesla
  have "py_getitem apple_record ''snippet'' = Inr (description apple_article)"
    and "description tesla_article = JStr ''Recall''"
    and "map Inr (relatedSymbols apple_article) = [Inr (JStr ''AAPL''), Inr (JStr ''MSFT'')]"
    and "map Inr (relatedSymbols tesla_article) = [Inr (JStr ''TSLA'')]"
    by auto
  with apple tesla transform_example_page show ?thesis
    by auto
qed

section \<open>Properties of the sentiment classifier client\<close>









section \<open>Properties of the aggregation pipeline\<close>

lemma fetch_news_page_query:
  "fetch_news_page w symbols page limit =
     (case news_api w (request_params_of w symbols page limit) of
        Transport_error \<Rightarrow> JNull
      | Response ok body \<Rightarrow> if ok then (case body of None \<Rightarrow> JNull | Some j \<Rightarrow> j) else JNull)"
  by (simp add: fetch_news_page_def)






text \<open>The enrichment changes the two sentiment keys only.\<close>

lemma length_enrich [simp]: "length (enrich w n as) = length as"
  by (induction as arbitrary: n) (simp_all split: prod.splits)

lemma unenriched_enrich: "map unenriched (enrich w n as) = map unenriched as"
  by (induction as arbitrary: n) (simp_all add: unenriched_def split: prod.splits)

lemma publishedAt_enrich: "map publishedAt (enrich w n as) = map publishedAt as"
  by (induction as arbitrary: n) (simp_all split: prod.splits)

lemma enrich_each:
  "a \<in> set (enrich w n as) \<Longrightarrow>
   \<exists>b m. b \<in> set as \<and> a = b\<lparr>sentiment := Some (fst (get_sentiment w m (sentiment_text w b))),
                       sentiment_score := Some (snd (get_sentiment w m (sentiment_text w b)))\<rparr>"
proof (induction as arbitrary: n)
  case Nil
  then show ?case by simp
next
  case (Cons b as)
  then show ?case
    by (cases "get_sentiment w n (sentiment_text w b)") (auto, (metis fst_conv snd_conv)+)
qed

lemma unenriched_transform_article: "transform_article raw = Inr a \<Longrightarrow> unenriched a = a"
  unfolding transform_article_Inr_iff by (auto simp: unenriched_def)

lemma unenriched_transform_articles: "transform_articles raws = Inr as \<Longrightarrow> map unenriched as = as"
  by (induction raws arbitrary: as)
    (auto split: sum.splits dest: unenriched_transform_article)

lemma unenriched_transform_news_data:
  "transform_news_data page = Inr as \<Longrightarrow> map unenriched as = as"
  unfolding transform_news_data_Inr_iff by (auto dest: unenriched_transform_articles)

text \<open>What the loop adds to the combined list when it returns: for each result the
  articles of its page, each enriched by one call of \<open>get_sentiment\<close>.\<close>

lemma combine_Inr:
  assumes "combine w n combined_news results = Inr arts"
  shows "\<exists>new. arts = combined_news @ new
          \<and> map unenriched new = concat (map page_articles results)
          \<and> (\<forall>a\<in>set new. \<exists>b m. a = b\<lparr>sentiment := Some (fst (get_sentiment w m (sentiment_text w b))),
                       sentiment_score := Some (snd (get_sentiment w m (sentiment_text w b)))\<rparr>)"
    (is "\<exists>new. _ \<and> _ \<and> (\<forall>a\<in>set new. ?enriched a)")
  using assms
proof (induction results arbitrary: n combined_news)
  case Nil
  then show ?case by simp
next
  case (Cons result results)
  show ?case
  proof (cases "py_truthy result \<and> py_contains_data result = Inr True")
    case False
    then have empty: "page_articles result = []"
      by (auto simp: page_articles_def)
    from False Cons.prems have "combine w n combined_news results = Inr arts"
      by (auto split: sum.splits bool.splits if_splits)
    from Cons.IH [OF this] obtain new where
      "arts = combined_news @ new"
      "map unenriched new = concat (map page_articles results)"
      "\<forall>a\<in>set new. ?enriched a"
      by blast
    with empty show ?thesis
      by (intro exI [of _ new]) simp
  next
    case True
    with Cons.prems obtain news_data where
      news_data: "transform_news_data result = Inr news_data"
      and rest: "combine w (n + length news_data) (combined_news @ enrich w n news_data) results
        = Inr arts"
      by (auto split: sum.splits)
    from Cons.IH [OF rest] obtain new where new:
      "arts = (combined_news @ enrich w n news_data) @ new"
      "map unenriched new = concat (map page_articles results)"
      "\<forall>a\<in>set new. ?enriched a"
      by blast
    have page: "page_articles result = news_data"
      using True news_data by (simp add: page_articles_def)
    have "map unenriched (enrich w n news_data @ new) = concat (map page_articles (result # results))"
      using new(2) page unenriched_transform_news_data [OF news_data]
      by (simp add: unenriched_enrich)
    moreover have "\<forall>a\<in>set (enrich w n news_data). ?enriched a"
      using enrich_each [of _ w n news_data] by blast
    with new(3) have "\<forall>a\<in>set (enrich w n news_data @ new). ?enriched a"
      by auto
    ultimately show ?thesis
      using new(1) by (intro exI [of _ "enrich w n news_data @ new"]) simp
  qed
qed

section \<open>Properties of the sort\<close>

text \<open>Within numbers and within strings, \<open>py_lt\<close> is the strict order of the ranks; it is
  defined on no other pair.\<close>

lemma py_lt_rank:
  "py_lt a b = (if key_kind a = key_kind b \<and> key_kind a < 2 then Inr (rank a < rank b)
                else Inl TypeError)"
  by (cases a; cases b) (simp_all add: key_kind_def rank_def)

lemma py_lt_irrefl: "py_lt a a \<noteq> Inr True"
  by (simp add: py_lt_rank)

lemma py_lt_asym: "py_lt a b = Inr True \<Longrightarrow> py_lt b a = Inr False"
  by (auto simp: py_lt_rank split: if_splits)

lemma py_lt_neg_trans:
  "py_lt a b = Inr False \<Longrightarrow> py_lt b c = Inr False \<Longrightarrow> py_lt a c = Inr False"
  by (auto simp: py_lt_rank split: if_splits)

lemma py_lt_less_le_trans:
  "py_lt x y = Inr True \<Longrightarrow> py_lt b y = Inr False \<Longrightarrow> py_lt x b = Inr True"
  by (auto simp: py_lt_rank split: if_splits)

lemma mset_py_insort: "py_insort key x ys = Inr zs \<Longrightarrow> mset zs = add_mset x (mset ys)"
  by (induction ys arbitrary: zs) (auto split: sum.splits bool.splits)

lemma sorted_py_insort:
  assumes "py_insort key x ys = Inr zs"
    and "sorted_wrt (\<lambda>a b. py_lt (key b) (key a) = Inr False) ys"
  shows "sorted_wrt (\<lambda>a b. py_lt (key b) (key a) = Inr False) zs"
  using assms
proof (induction ys arbitrary: zs)
  case Nil
  then show ?case by auto
next
  case (Cons y ys)
  show ?case
  proof (cases "py_lt (key x) (key y)")
    case (Inl e)
    with Cons.prems show ?thesis by simp
  next
    case (Inr less)
    show ?thesis
    proof (cases less)
      case True
      with Inr Cons.prems have zs: "zs = x # y # ys" by simp
      from Inr True have "py_lt (key y) (key x) = Inr False" by (simp add: py_lt_asym)
      moreover from this Cons.prems(2)
      have "\<forall>b\<in>set ys. py_lt (key b) (key x) = Inr False"
        by (auto intro: py_lt_neg_trans)
      ultimately show ?thesis using Cons.prems(2) zs by simp
    next
      case False
      with Inr Cons.prems obtain zs' where zs': "py_insort key x ys = Inr zs'" "zs = y # zs'"
        by (auto split: sum.splits)
      from Cons.IH [OF zs'(1)] Cons.prems(2)
      have "sorted_wrt (\<lambda>a b. py_lt (key b) (key a) = Inr False) zs'" by simp
      moreover from mset_py_insort [OF zs'(1)] have "set zs' = insert x (set ys)"
        by (metis set_mset_add_mset_insert set_mset_mset)
      ultimately show ?thesis using Cons.prems(2) zs'(2) Inr False by auto
    qed
  qed
qed

lemma filter_py_insort:
  assumes "py_insort key x ys = Inr zs"
    and "sorted_wrt (\<lambda>a b. py_lt (key b) (key a) = Inr False) ys"
    and "P x \<Longrightarrow> \<forall>b\<in>set ys. P b \<longrightarrow> py_lt (key x) (key b) \<noteq> Inr True"
  shows "filter P zs = (if P x then filter P ys @ [x] else filter P ys)"
  using assms
proof (induction ys arbitrary: zs)
  case Nil
  then show ?case by auto
next
  case (Cons y ys)
  show ?case
  proof (cases "py_lt (key x) (key y)")
    case (Inl e)
    with Cons.prems show ?thesis by simp
  next
    case (Inr less)
    show ?thesis
    proof (cases less)
      case True
      with Inr Cons.prems have zs: "zs = x # y # ys" by simp
      have "py_lt (key x) (key b) = Inr True" if "b \<in> set (y # ys)" for b
      proof (cases "b = y")
        case True
        with Inr \<open>less\<close> show ?thesis by simp
      next
        case False
        with that Cons.prems(2) have "py_lt (key b) (key y) = Inr False" by auto
        with Inr \<open>less\<close> show ?thesis by (auto intro: py_lt_less_le_trans)
      qed
      with Cons.prems(3) have "\<forall>b\<in>set (y # ys). \<not> P b" if "P x"
        using that by blast
      then have "filter P (y # ys) = []" if "P x"
        using that unfolding filter_empty_conv by blast
      with zs show ?thesis by auto
    next
      case False
      with Inr Cons.prems obtain zs' where zs': "py_insort key x ys = Inr zs'" "zs = y # zs'"
        by (auto split: sum.splits)
      from Cons.prems(2) have "sorted_wrt (\<lambda>a b. py_lt (key b) (key a) = Inr False) ys" by simp
      from Cons.IH [OF zs'(1) this] Cons.prems(3)
      have "filter P zs' = (if P x then filter P ys @ [x] else filter P ys)" by simp
      with zs'(2) show ?thesis by simp
    qed
  qed
qed

lemma py_sort_from_properties:
  assumes "py_sort_from key sorted_part xs = Inr ys"
    and "sorted_wrt (\<lambda>a b. py_lt (key b) (key a) = Inr False) sorted_part"
    and "\<And>a b. P a \<Longrightarrow> P b \<Longrightarrow> py_lt (key a) (key b) \<noteq> Inr True"
  shows "mset ys = mset sorted_part + mset xs
       \<and> sorted_wrt (\<lambda>a b. py_lt (key b) (key a) = Inr False) ys
       \<and> filter P ys = filter P sorted_part @ filter P xs"
  using assms(1,2)
proof (induction xs arbitrary: sorted_part)
  case Nil
  then show ?case by simp
next
  case (Cons x xs)
  from Cons.prems(1) obtain longer where
    longer: "py_insort key x sorted_part = Inr longer" "py_sort_from key longer xs = Inr ys"
    by (auto split: sum.splits)
  note sorted = sorted_py_insort [OF longer(1) Cons.prems(2)]
  from filter_py_insort [OF longer(1) Cons.prems(2), of P] assms(3)
  have "filter P longer = (if P x then filter P sorted_part @ [x] else filter P sorted_part)"
    by blast
  with Cons.IH [OF longer(2) sorted] mset_py_insort [OF longer(1)]
  show ?case by simp
qed

lemma py_sort_reverse_properties:
  assumes "py_sort_reverse key xs = Inr ys"
  shows "mset ys = mset xs
       \<and> sorted_wrt (\<lambda>a b. py_lt (key a) (key b) = Inr False) ys
       \<and> filter (\<lambda>a. key a = k) ys = filter (\<lambda>a. key a = k) xs"
proof -
  from assms obtain zs where zs: "py_sort_from key [] (rev xs) = Inr zs" "ys = rev zs"
    by (auto simp: py_sort_reverse_def py_sort_def split: sum.splits)
  from py_sort_from_properties [OF zs(1), of "\<lambda>a. key a = k"]
  have "mset zs = mset (rev xs)"
    "sorted_wrt (\<lambda>a b. py_lt (key b) (key a) = Inr False) zs"
    "filter (\<lambda>a. key a = k) zs = filter (\<lambda>a. key a = k) (rev xs)"
    by (simp_all add: py_lt_irrefl)
  with zs(2) show ?thesis
    by (simp add: sorted_wrt_rev rev_filter [symmetric])
qed

text \<open>On keys that are all strings no comparison raises, and the sort returns.\<close>

lemma set_py_insort: "py_insort key x ys = Inr zs \<Longrightarrow> set zs = insert x (set ys)"
  using mset_py_insort [of key x ys zs]
  by (metis set_mset_add_mset_insert set_mset_mset)

lemma py_lt_strings: "is_str a \<Longrightarrow> is_str b \<Longrightarrow> \<exists>less. py_lt a b = Inr less"
  by (cases a; cases b) (simp_all add: is_str_def)

lemma py_insort_strings:
  "is_str (key x) \<Longrightarrow> \<forall>a\<in>set ys. is_str (key a) \<Longrightarrow> \<exists>zs. py_insort key x ys = Inr zs"
proof (induction ys)
  case Nil
  then show ?case by simp
next
  case (Cons y ys)
  from Cons.prems obtain less where "py_lt (key x) (key y) = Inr less"
    using py_lt_strings [of "key x" "key y"] by auto
  moreover from Cons obtain zs where "py_insort key x ys = Inr zs" by auto
  ultimately show ?case by (cases less) simp_all
qed

lemma py_sort_from_strings:
  "\<forall>a\<in>set sorted_part \<union> set xs. is_str (key a) \<Longrightarrow> \<exists>ys. py_sort_from key sorted_part xs = Inr ys"
proof (induction xs arbitrary: sorted_part)
  case Nil
  then show ?case by simp
next
  case (Cons x xs)
  from Cons.prems obtain longer where longer: "py_insort key x sorted_part = Inr longer"
    using py_insort_strings [of key x sorted_part] by auto
  from set_py_insort [OF this] Cons.prems
  have "\<forall>a\<in>set longer \<union> set xs. is_str (key a)" by auto
  from Cons.IH [OF this] longer show ?case by simp
qed

lemma py_sort_reverse_strings:
  assumes "\<forall>a\<in>set xs. is_str (key a)"
  shows "\<exists>ys. py_sort_reverse key xs = Inr ys"
proof -
  from assms have "\<forall>a\<in>set [] \<union> set (rev xs). is_str (key a)" by simp
  from py_sort_from_strings [OF this] obtain ys where "py_sort_from key [] (rev xs) = Inr ys" ..
  then show ?thesis by (simp add: py_sort_reverse_def py_sort_def)
qed

section \<open>What a request returns and stores\<close>

lemma py_sort_reverse_Nil [simp]: "py_sort_reverse key [] = Inr []"
  by (simp add: py_sort_reverse_def py_sort_def)

text \<open>The three ways in which \<open>get_news\<close> answers with a list: from the cache, or with
  the sorted result of a fetch, written to the cache unless it is empty.\<close>

lemma get_news_Ok:
  assumes "get_news w clk st symbols page limit = (st', Ok arts)"
  shows "(ttl_contains (news_cache st) (at_cache_test clk) (cache_key symbols page limit)
          \<and> (\<exists>expires. (cache_key symbols page limit, arts, expires) \<in> set (news_cache st))
          \<and> news_cache st' = news_cache st)
       \<or> (\<not> ttl_contains (news_cache st) (at_cache_test clk) (cache_key symbols page limit)
          \<and> (\<exists>fetched. fetch_all_news_pages w symbols (limit div 3) = Inr fetched
                \<and> py_sort_reverse publishedAt fetched = Inr arts)
          \<and> (news_cache st' = news_cache st
              \<or> news_cache st' = ttl_setitem 500 NEWS_CACHE_TTL (news_cache st)
                   (at_cache_write clk) (cache_key symbols page limit) arts))"
proof (cases "ttl_contains (news_cache st) (at_cache_test clk) (cache_key symbols page limit)")
  case True
  with assms have "ttl_getitem (news_cache st) (at_cache_read clk) (cache_key symbols page limit)
      = Inr arts" and "news_cache st' = news_cache st"
    by (auto simp: get_news_def Let_def split: if_splits sum.splits)
  moreover from this(1)
  have "\<exists>expires. (cache_key symbols page limit, arts, expires) \<in> set (news_cache st)"
    by (auto simp: ttl_getitem_def split: option.splits dest: ttl_lookup_stored)
  ultimately show ?thesis using True by simp
next
  case False
  with assms show ?thesis
    by (auto simp: get_news_def Let_def news_cache_set_def split: if_splits sum.splits)
qed

lemma refresh_news_Ok:
  assumes "refresh_news w clk st symbols = (st', Ok arts)"
  shows "(\<exists>fetched. fetch_all_news_pages w symbols 10 = Inr fetched
            \<and> py_sort_reverse publishedAt fetched = Inr arts)
       \<and> (news_cache st' = news_cache st
           \<or> news_cache st' = ttl_setitem 500 NEWS_CACHE_TTL (news_cache st)
                (at_cache_write clk) (cache_key symbols 1 30) arts)"
  using assms
  by (auto simp: refresh_news_def Let_def news_cache_set_def split: if_splits sum.splits)

text \<open>Whatever the answer, the cache after a request is the cache before it, or that
  cache with the sorted result of the request's fetch written to it.\<close>

lemma news_cache_get_news:
  "news_cache (fst (get_news w clk st symbols page limit)) = news_cache st
   \<or> (\<exists>fetched sorted_news. fetch_all_news_pages w symbols (limit div 3) = Inr fetched
        \<and> py_sort_reverse publishedAt fetched = Inr sorted_news
        \<and> news_cache (fst (get_news w clk st symbols page limit)) =
            ttl_setitem 500 NEWS_CACHE_TTL (news_cache st) (at_cache_write clk)
              (cache_key symbols page limit) sorted_news)"
  by (auto simp: get_news_def Let_def news_cache_set_def split: if_splits sum.splits)

lemma news_cache_refresh_news:
  "news_cache (fst (refresh_news w clk st symbols)) = news_cache st
   \<or> (\<exists>fetched sorted_news. fetch_all_news_pages w symbols 10 = Inr fetched
        \<and> py_sort_reverse publishedAt fetched = Inr sorted_news
        \<and> news_cache (fst (refresh_news w clk st symbols)) =
            ttl_setitem 500 NEWS_CACHE_TTL (news_cache st) (at_cache_write clk)
              (cache_key symbols 1 30) sorted_news)"
  by (auto simp: refresh_news_def Let_def news_cache_set_def split: if_splits sum.splits)

lemma list_all_ttl_setitem:
  "list_all Q c \<Longrightarrow> Q (k, v, now + ttl) \<Longrightarrow> list_all Q (ttl_setitem m ttl c now k v)"
  using set_ttl_setitem [of m ttl c now k v] by (auto simp: list_all_iff)

lemma cache_all_stored:
  "cache_all P st \<Longrightarrow> (k, v, expires) \<in> set (news_cache st) \<Longrightarrow> P v"
  by (auto simp: cache_all_def list_all_iff)

lemma cache_all_get_news:
  assumes "cache_all P st"
    and "\<And>fetched sorted_news. fetch_all_news_pages w symbols (limit div 3) = Inr fetched \<Longrightarrow>
           py_sort_reverse publishedAt fetched = Inr sorted_news \<Longrightarrow> P sorted_news"
  shows "cache_all P (fst (get_news w clk st symbols page limit))
       \<and> (snd (get_news w clk st symbols page limit) = Ok arts \<longrightarrow> P arts)"
proof
  from news_cache_get_news [of w clk st symbols page limit] assms
  show "cache_all P (fst (get_news w clk st symbols page limit))"
    unfolding cache_all_def by (auto intro!: list_all_ttl_setitem)
  show "snd (get_news w clk st symbols page limit) = Ok arts \<longrightarrow> P arts"
  proof
    assume "snd (get_news w clk st symbols page limit) = Ok arts"
    then have "get_news w clk st symbols page limit
        = (fst (get_news w clk st symbols page limit), Ok arts)"
      by (metis prod.collapse)
    from get_news_Ok [OF this] assms show "P arts"
      by (auto dest: cache_all_stored)
  qed
qed

lemma cache_all_refresh_news:
  assumes "cache_all P st"
    and "\<And>fetched sorted_news. fetch_all_news_pages w symbols 10 = Inr fetched \<Longrightarrow>
           py_sort_reverse publishedAt fetched = Inr sorted_news \<Longrightarrow> P sorted_news"
  shows "cache_all P (fst (refresh_news w clk st symbols))
       \<and> (snd (refresh_news w clk st symbols) = Ok arts \<longrightarrow> P arts)"
proof
  from news_cache_refresh_news [of w clk st symbols] assms
  show "cache_all P (fst (refresh_news w clk st symbols))"
    unfolding cache_all_def by (auto intro!: list_all_ttl_setitem)
  show "snd (refresh_news w clk st symbols) = Ok arts \<longrightarrow> P arts"
  proof
    assume "snd (refresh_news w clk st symbols) = Ok arts"
    then have "refresh_news w clk st symbols = (fst (refresh_news w clk st symbols), Ok arts)"
      by (metis prod.collapse)
    from refresh_news_Ok [OF this] assms(2) show "P arts"
      by auto
  qed
qed

lemma cache_all_initial_state: "cache_all P initial_state"
  by (simp add: cache_all_def initial_state_def)

text \<open>A property of every sorted result of a fetch is a property of every cached list
  and of every list that a request returns.\<close>

lemma served_cache_all:
  assumes "served ok st"
    and "\<And>w symbols n fetched sorted_news. ok w \<Longrightarrow>
           fetch_all_news_pages w symbols n = Inr fetched \<Longrightarrow>
           py_sort_reverse publishedAt fetched = Inr sorted_news \<Longrightarrow> P sorted_news"
  shows "cache_all P st"
  using assms(1)
proof (induction rule: served.induct)
  case served_initial
  show ?case by (rule cache_all_initial_state)
next
  case (served_get_news st w clk symbols page limit)
  have "cache_all P (fst (get_news w clk st symbols page limit))
      \<and> (snd (get_news w clk st symbols page limit) = Ok [] \<longrightarrow> P [])"
    by (rule cache_all_get_news [OF served_get_news.IH])
      (rule assms(2) [OF served_get_news.hyps(2)])
  then show ?case ..
next
  case (served_refresh_news st w clk symbols)
  have "cache_all P (fst (refresh_news w clk st symbols))
      \<and> (snd (refresh_news w clk st symbols) = Ok [] \<longrightarrow> P [])"
    by (rule cache_all_refresh_news [OF served_refresh_news.IH])
      (rule assms(2) [OF served_refresh_news.hyps(2)])
  then show ?case ..
qed

lemma served_answers:
  assumes "served ok st" and "ok w"
    and "\<And>w symbols n fetched sorted_news. ok w \<Longrightarrow>
           fetch_all_news_pages w symbols n = Inr fetched \<Longrightarrow>
           py_sort_reverse publishedAt fetched = Inr sorted_news \<Longrightarrow> P sorted_news"
  shows "snd (get_news w clk st symbols page limit) = Ok arts \<longrightarrow> P arts"
    and "snd (refresh_news w clk st symbols) = Ok arts \<longrightarrow> P arts"
proof -
  have inv: "cache_all P st"
    by (rule served_cache_all [OF assms(1)]) (rule assms(3))
  have "cache_all P (fst (get_news w clk st symbols page limit))
      \<and> (snd (get_news w clk st symbols page limit) = Ok arts \<longrightarrow> P arts)"
    by (rule cache_all_get_news [OF inv]) (rule assms(3) [OF assms(2)])
  then show "snd (get_news w clk st symbols page limit) = Ok arts \<longrightarrow> P arts" ..
  have "cache_all P (fst (refresh_news w clk st symbols))
      \<and> (snd (refresh_news w clk st symbols) = Ok arts \<longrightarrow> P arts)"
    by (rule cache_all_refresh_news [OF inv]) (rule assms(3) [OF assms(2)])
  then show "snd (refresh_news w clk st symbols) = Ok arts \<longrightarrow> P arts" ..
qed

section \<open>Order of the returned articles\<close>






section \<open>Which failures the pipeline absorbs\<close>

text \<open>On well-formed records the transformer returns, and the publication times of its
  articles are strings.\<close>

lemma related_symbols_total:
  "list_all wf_entity entities \<Longrightarrow> \<exists>symbols. related_symbols entities = Inr symbols"
proof (induction entities)
  case Nil
  then show ?case by simp
next
  case (Cons entity entities)
  then obtain rest where "related_symbols entities = Inr rest" by auto
  with Cons.prems show ?case
    by (auto simp: wf_entity_def has_item_def split: sum.splits if_splits)
qed

lemma has_item_Inr: "has_item v k \<Longrightarrow> \<exists>x. py_getitem v k = Inr x"
  by (simp add: has_item_def split: sum.splits)

lemma transform_article_total:
  assumes "wf_record raw"
  shows "\<exists>a. transform_article raw = Inr a \<and> is_str (publishedAt a)"
proof -
  from assms obtain ents entities where
    e: "py_getitem raw ''entities'' = Inr ents" "py_iter ents = Inr entities"
      "list_all wf_entity entities"
    by (auto simp: wf_record_def split: sum.splits)
  from related_symbols_total [OF e(3)] obtain related where
    r: "related_symbols entities = Inr related" ..
  from assms obtain uuid ttl src link where
    k: "py_getitem raw ''uuid'' = Inr uuid" "py_getitem raw ''title'' = Inr ttl"
      "py_getitem raw ''source'' = Inr src" "py_getitem raw ''url'' = Inr link"
    unfolding wf_record_def by (blast dest: has_item_Inr)
  from assms obtain long_desc desc where
    d: "py_getitem raw ''description'' = Inr long_desc"
      "(if py_truthy long_desc then Inr long_desc else py_getitem raw ''snippet'') = Inr desc"
    by (auto simp: wf_record_def split: sum.splits if_splits dest: has_item_Inr)
  from assms obtain published where
    p: "py_getitem raw ''published_at'' = Inr published" "is_str published"
    by (auto simp: wf_record_def split: sum.splits)
  let ?a = "\<lparr>id_art = uuid, title = ttl, description = desc, source = src, url = link,
             publishedAt = published, relatedSymbols = related,
             sentiment = None, sentiment_score = None\<rparr>"
  have "transform_article raw = Inr ?a"
    unfolding transform_article_Inr_iff using e(1,2) r k d p(1) by blast
  with p(2) show ?thesis by (intro exI [of _ ?a]) simp
qed

lemma transform_articles_total:
  "list_all wf_record raws \<Longrightarrow>
   \<exists>as. transform_articles raws = Inr as \<and> (\<forall>a\<in>set as. is_str (publishedAt a))"
proof (induction raws)
  case Nil
  then show ?case by simp
next
  case (Cons raw raws)
  then obtain as where "transform_articles raws = Inr as" "\<forall>a\<in>set as. is_str (publishedAt a)"
    by auto
  moreover from Cons.prems transform_article_total [of raw] obtain a where
    "transform_article raw = Inr a" "is_str (publishedAt a)"
    by auto
  ultimately show ?case by (intro exI [of _ "a # as"]) simp
qed

lemma transform_news_data_total:
  assumes "wf_page page"
  shows "\<exists>as. transform_news_data page = Inr as \<and> (\<forall>a\<in>set as. is_str (publishedAt a))"
proof -
  from assms obtain data raws where
    "py_getitem page ''data'' = Inr data" "py_iter data = Inr raws" "list_all wf_record raws"
    by (auto simp: wf_page_def split: sum.splits)
  with transform_articles_total [OF this(3)] show ?thesis
    by (simp add: transform_news_data_def)
qed

lemma publishedAt_set_enrich:
  "(\<forall>a\<in>set (enrich w n as). is_str (publishedAt a)) = (\<forall>a\<in>set as. is_str (publishedAt a))"
proof -
  have "(\<forall>a\<in>set (enrich w n as). is_str (publishedAt a))
      = (\<forall>t\<in>set (map publishedAt (enrich w n as)). is_str t)"
    by simp
  also have "\<dots> = (\<forall>t\<in>set (map publishedAt as). is_str t)"
    by (simp only: publishedAt_enrich)
  finally show ?thesis by simp
qed

lemma combine_total:
  assumes "\<forall>result\<in>set results. page_ok result"
    and "\<forall>a\<in>set combined_news. is_str (publishedAt a)"
  shows "\<exists>arts. combine w n combined_news results = Inr arts
           \<and> (\<forall>a\<in>set arts. is_str (publishedAt a))"
  using assms
proof (induction results arbitrary: n combined_news)
  case Nil
  then show ?case by simp
next
  case (Cons result results)
  from Cons.prems(1) have rest: "\<forall>result\<in>set results. page_ok result" by simp
  show ?case
  proof (cases "py_truthy result \<and> py_contains_data result = Inr True")
    case False
    with Cons.prems(1) have "combine w n combined_news (result # results)
        = combine w n combined_news results"
      by (auto simp: page_ok_def split: sum.splits if_splits)
    with Cons.IH [OF rest Cons.prems(2)] show ?thesis by simp
  next
    case True
    with Cons.prems(1) have "wf_page result" by (simp add: page_ok_def)
    from transform_news_data_total [OF this] obtain news_data where
      news_data: "transform_news_data result = Inr news_data"
        "\<forall>a\<in>set news_data. is_str (publishedAt a)"
      by blast
    from news_data(2) have "\<forall>a\<in>set (enrich w n news_data). is_str (publishedAt a)"
      by (simp only: publishedAt_set_enrich)
    with Cons.prems(2)
    have "\<forall>a\<in>set (combined_news @ enrich w n news_data). is_str (publishedAt a)"
      by auto
    from Cons.IH [OF rest this] True news_data(1) show ?thesis by simp
  qed
qed

lemma fetch_all_news_pages_total:
  assumes "\<forall>page\<in>set fetch_pages. page_ok (fetch_news_page w symbols page base_limit)"
  shows "\<exists>arts. fetch_all_news_pages w symbols base_limit = Inr arts
           \<and> (\<forall>a\<in>set arts. is_str (publishedAt a))"
  unfolding fetch_all_news_pages_def api_results_def
  by (rule combine_total) (use assms in auto)

lemma fetch_and_sort_total:
  assumes "\<forall>page\<in>set fetch_pages. page_ok (fetch_news_page w symbols page base_limit)"
  shows "\<exists>fetched sorted_news. fetch_all_news_pages w symbols base_limit = Inr fetched
           \<and> py_sort_reverse publishedAt fetched = Inr sorted_news"
  using fetch_all_news_pages_total [OF assms] py_sort_reverse_strings [of _ publishedAt]
  by blast

lemma fetch_news_page_absorbs:
  "news_api w (request_params_of w symbols page limit) = Transport_error \<Longrightarrow>
     fetch_news_page w symbols page limit = JNull"
  "news_api w (request_params_of w symbols page limit) = Response False body \<Longrightarrow>
     fetch_news_page w symbols page limit = JNull"
  "news_api w (request_params_of w symbols page limit) = Response ok None \<Longrightarrow>
     fetch_news_page w symbols page limit = JNull"
  by (simp_all add: fetch_news_page_def)

text \<open>
  C3, as amended. For every combination of upstream responses in which each of the four
  fetched results is falsy (as for a fetch that failed: a transport error, a rejected
  status or a body that is not JSON gives \<^verbatim>\<open>None\<close>), or supports the membership test and
  does not contain \<^verbatim>\<open>'data'\<close>, or is an object whose data are well-formed records, and
  for every behaviour of the sentiment service: the pipeline returns a list, and a
  request that is not rate limited (and, for \<^verbatim>\<open>/api/news\<close>, misses the cache) is answered
  with a list, not with an internal error.
\<close>

theorem well_formed_pages_never_fail:
  "((\<forall>page\<in>set fetch_pages. page_ok (fetch_news_page w symbols page base_limit)) \<longrightarrow>
      (\<exists>arts. fetch_all_news_pages w symbols base_limit = Inr arts))
   \<and> ((\<forall>page\<in>set fetch_pages. page_ok (fetch_news_page w symbols page (limit div 3)))
        \<and> \<not> ttl_contains (rate_limit_cache st) (at_limit_test clk) (rate_limit_key symbols)
        \<and> \<not> ttl_contains (news_cache st) (at_cache_test clk) (cache_key symbols page limit) \<longrightarrow>
      (\<exists>arts. snd (get_news w clk st symbols page limit) = Ok arts))
   \<and> ((\<forall>page\<in>set fetch_pages. page_ok (fetch_news_page w symbols page 10))
        \<and> \<not> ttl_contains (rate_limit_cache st) (at_limit_test clk) (rate_limit_refresh_key symbols) \<longrightarrow>
      (\<exists>arts. snd (refresh_news w clk st symbols) = Ok arts))
   \<and> page_ok JNull
   \<and> (news_api w (request_params_of w symbols page limit) = Transport_error \<longrightarrow>
        fetch_news_page w symbols page limit = JNull)
   \<and> (news_api w (request_params_of w symbols page limit) = Response False body \<longrightarrow>
        fetch_news_page w symbols page limit = JNull)
   \<and> (news_api w (request_params_of w symbols page limit) = Response ok None \<longrightarrow>
        fetch_news_page w symbols page limit = JNull)"
proof (intro conjI impI)
  assume "\<forall>page\<in>set fetch_pages. page_ok (fetch_news_page w symbols page base_limit)"
  from fetch_all_news_pages_total [OF this]
  show "\<exists>arts. fetch_all_news_pages w symbols base_limit = Inr arts"
    by blast
next
  assume a: "(\<forall>page\<in>set fetch_pages. page_ok (fetch_news_page w symbols page (limit div 3)))
        \<and> \<not> ttl_contains (rate_limit_cache st) (at_limit_test clk) (rate_limit_key symbols)
        \<and> \<not> ttl_contains (news_cache st) (at_cache_test clk) (cache_key symbols page limit)"
  then obtain fetched sorted_news where
    "fetch_all_news_pages w symbols (limit div 3) = Inr fetched"
    "py_sort_reverse publishedAt fetched = Inr sorted_news"
    using fetch_and_sort_total [of w symbols "limit div 3"] by blast
  with a show "\<exists>arts. snd (get_news w clk st symbols page limit) = Ok arts"
    by (simp add: get_news_def Let_def)
next
  assume a: "(\<forall>page\<in>set fetch_pages. page_ok (fetch_news_page w symbols page 10))
        \<and> \<not> ttl_contains (rate_limit_cache st) (at_limit_test clk) (rate_limit_refresh_key symbols)"
  then obtain fetched sorted_news where
    "fetch_all_news_pages w symbols 10 = Inr fetched"
    "py_sort_reverse publishedAt fetched = Inr sorted_news"
    using fetch_and_sort_total [of w symbols 10] by blast
  with a show "\<exists>arts. snd (refresh_news w clk st symbols) = Ok arts"
    by (simp add: refresh_news_def Let_def)
next
  show "page_ok JNull"
    by (simp add: page_ok_def)
qed (simp_all add: fetch_news_page_absorbs)

lemma page_ok_example_page: "page_ok example_page"
  by (simp add: page_ok_def wf_page_def wf_record_def wf_entity_def has_item_def is_str_def
      example_page_def apple_record_def tesla_record_def)

theorem well_formed_pages_never_fail_witness:
  "page_ok (fetch_news_page example_world None 1 10)
   \<and> page_ok (fetch_news_page example_world None 2 10)
   \<and> page_ok (fetch_news_page example_world None 3 10)
   \<and> page_ok (fetch_news_page example_world None 4 10)
   \<and> \<not> ttl_contains (rate_limit_cache initial_state) (at_limit_test (clock_at 0))
         (rate_limit_key None)
   \<and> \<not> ttl_contains (rate_limit_cache initial_state) (at_limit_test (clock_at 0))
         (rate_limit_refresh_key None)
   \<and> \<not> ttl_contains (news_cache initial_state) (at_cache_test (clock_at 0)) (cache_key None 1 30)
   \<and> (\<exists>arts. fetch_all_news_pages example_world None 10 = Inr arts)
   \<and> (\<exists>arts. snd (get_news example_world (clock_at 0) initial_state None 1 30) = Ok arts)
   \<and> (\<exists>arts. snd (refresh_news example_world (clock_at 0) initial_state None) = Ok arts)
   \<and> news_api silent_world (request_params_of silent_world None 1 10) = Transport_error
   \<and> fetch_news_page silent_world None 1 10 = JNull"
proof -
  have pages: "fetch_news_page example_world None p 10 = (if p = 1 then example_page else JNull)"
    for p
    by (simp add: fetch_news_page_def example_world_def request_params_of_def)
  have ok: "page_ok (fetch_news_page example_world None 1 10)"
    "page_ok (fetch_news_page example_world None 2 10)"
    "page_ok (fetch_news_page example_world None 3 10)"
    "page_ok (fetch_news_page example_world None 4 10)"
    by (simp_all add: pages page_ok_example_page) (simp_all add: page_ok_def)
  then have all_ok: "\<forall>page\<in>set fetch_pages. page_ok (fetch_news_page example_world None page 10)"
    by (simp add: fetch_pages_def)
  then have all_ok': "\<forall>page\<in>set fetch_pages.
      page_ok (fetch_news_page example_world None page (30 div 3))"
    by simp
  note gate = initial_state_empty(1) [of "at_limit_test (clock_at 0)" "rate_limit_key None"]
    initial_state_empty(1) [of "at_limit_test (clock_at 0)" "rate_limit_refresh_key None"]
    initial_state_empty(2) [of "at_cache_test (clock_at 0)" "cache_key None 1 30"]
  have silent: "news_api silent_world (request_params_of silent_world None 1 10) = Transport_error"
    by (simp add: silent_world_def)
  note inst = well_formed_pages_never_fail [of example_world None 10 30 initial_state
      "clock_at 0" 1]
  from inst [THEN conjunct1] all_ok
  have r1: "\<exists>arts. fetch_all_news_pages example_world None 10 = Inr arts"
    by (rule mp)
  from inst [THEN conjunct2, THEN conjunct1] all_ok' gate(1,3)
  have r2: "\<exists>arts. snd (get_news example_world (clock_at 0) initial_state None 1 30) = Ok arts"
    by (rule mp [OF _ conjI [OF _ conjI]])
  from inst [THEN conjunct2, THEN conjunct2, THEN conjunct1] all_ok gate(2)
  have r3: "\<exists>arts. snd (refresh_news example_world (clock_at 0) initial_state None) = Ok arts"
    by (rule mp [OF _ conjI])
  from well_formed_pages_never_fail [of silent_world None 10 10 _ _ 1, THEN conjunct2,
      THEN conjunct2, THEN conjunct2, THEN conjunct2, THEN conjunct1] silent
  have r4: "fetch_news_page silent_world None 1 10 = JNull"
    by (rule mp)
  show ?thesis
    by (intro conjI ok gate r1 r2 r3 silent r4)
qed

theorem malformed_record_internal_error:
  "news_api malformed_world (request_params_of malformed_world None 1 10)
     = Response True (Some malformed_page)
   \<and> fetch_news_page malformed_world None 1 10 = malformed_page
   \<and> fetch_all_news_pages malformed_world None 10 = Inl KeyError
   \<and> snd (get_news malformed_world (clock_at 0) initial_state None 1 30) = HTTPException 500
   \<and> snd (refresh_news malformed_world (clock_at 0) initial_state None) = HTTPException 500"
proof -
  have page: "fetch_news_page malformed_world symbols p n = malformed_page" for symbols p n
    by (simp add: fetch_news_page_def malformed_world_def)
  have transform: "transform_news_data malformed_page = Inl KeyError"
    by (simp add: transform_news_data_def malformed_page_def transform_article_def)
  have contains: "py_truthy malformed_page" "py_contains_data malformed_page = Inr True"
    by (simp_all add: malformed_page_def)
  have fetch: "fetch_all_news_pages malformed_world symbols n = Inl KeyError" for symbols n
    by (simp add: fetch_all_news_pages_def api_results_def fetch_pages_def page transform contains)
  show ?thesis
    by (simp add: page fetch get_news_def refresh_news_def Let_def initial_state_empty)
      (simp add: malformed_world_def)
qed

section \<open>Sentiment of the returned articles\<close>

text \<open>The label that \<open>get_sentiment\<close> returns is one of the three, and its score is the
  default or one of the scores that the reply reports.\<close>

lemma max_score_from_member:
  "max_score_from maxitem maxval items = Inr best \<Longrightarrow> best = maxitem \<or> best \<in> set items"
proof (induction items arbitrary: maxitem maxval)
  case Nil
  then show ?case by simp
next
  case (Cons item items)
  then show ?case
    by (fastforce split: sum.splits bool.splits)
qed

lemma max_score_member: "max_score items = Inr best \<Longrightarrow> best \<in> set items"
  by (cases items) (auto split: sum.splits dest: max_score_from_member)

lemma sentiment_of_result_Inr:
  assumes "sentiment_of_result result = Inr (l, s)"
  shows "l \<in> set sentiment_labels
       \<and> s \<in> set (reported_scores (Response ok (Some result)))"
proof -
  from assms obtain classes items best low where
    r: "py_getitem0 result = Inr classes" "py_iter classes = Inr items"
      "max_score items = Inr best" "py_getitem best ''score'' = Inr s"
      "l = (case sentiment_mapping low of None \<Rightarrow> ''NEUTRAL'' | Some l \<Rightarrow> l)"
    unfolding sentiment_of_result_def sum_case_Inr_iff by auto
  from r(5) have "l \<in> set sentiment_labels"
    by (auto simp: sentiment_mapping_def sentiment_labels_def split: option.splits if_splits)
  moreover from max_score_member [OF r(3)] r(4)
  have "s \<in> set (concat (map (\<lambda>item. case py_getitem item ''score'' of
      Inl err \<Rightarrow> [] | Inr s \<Rightarrow> [s]) items))"
    by force
  with r(1,2) have "s \<in> set (reported_scores (Response ok (Some result)))"
    by (simp add: reported_scores_def)
  ultimately show ?thesis ..
qed

lemma get_sentiment_label: "fst (get_sentiment w n text) \<in> set sentiment_labels"
proof (cases "sentiment_api w n text")
  case Transport_error
  then show ?thesis by (simp add: get_sentiment_def sentiment_labels_def)
next
  case (Response ok body)
  show ?thesis
  proof (cases body)
    case None
    with Response show ?thesis by (simp add: get_sentiment_def sentiment_labels_def)
  next
    case (Some result)
    show ?thesis
    proof (cases "sentiment_of_result result")
      case (Inl e)
      with Response Some show ?thesis by (simp add: get_sentiment_def sentiment_labels_def)
    next
      case (Inr r)
      with sentiment_of_result_Inr [of result "fst r" "snd r"] Response Some show ?thesis
        by (simp add: get_sentiment_def)
    qed
  qed
qed

lemma get_sentiment_unit_score:
  assumes "list_all unit_score (reported_scores (sentiment_api w n text))"
  shows "unit_score (snd (get_sentiment w n text))"
proof (cases "sentiment_api w n text")
  case Transport_error
  then show ?thesis by (simp add: get_sentiment_def unit_score_def)
next
  case (Response ok body)
  show ?thesis
  proof (cases body)
    case None
    with Response show ?thesis by (simp add: get_sentiment_def unit_score_def)
  next
    case (Some result)
    show ?thesis
    proof (cases "sentiment_of_result result")
      case (Inl e)
      with Response Some show ?thesis by (simp add: get_sentiment_def unit_score_def)
    next
      case (Inr r)
      with sentiment_of_result_Inr [of result "fst r" "snd r" ok] assms Response Some
      show ?thesis
        by (simp add: get_sentiment_def list_all_iff)
    qed
  qed
qed

lemma fetched_enriched:
  assumes "fetch_all_news_pages w symbols n = Inr fetched" and "a \<in> set fetched"
  shows "\<exists>b m. a = b\<lparr>sentiment := Some (fst (get_sentiment w m (sentiment_text w b))),
                 sentiment_score := Some (snd (get_sentiment w m (sentiment_text w b)))\<rparr>"
  using combine_Inr [OF assms(1) [unfolded fetch_all_news_pages_def]] assms(2) by auto

lemma sorted_same_set:
  "py_sort_reverse key xs = Inr ys \<Longrightarrow> set ys = set xs"
  using py_sort_reverse_properties [of key xs ys] by (metis set_mset_mset)

lemma labelled_sorted:
  assumes "fetch_all_news_pages w symbols n = Inr fetched"
    and "py_sort_reverse publishedAt fetched = Inr sorted_news"
  shows "list_all labelled sorted_news"
  unfolding list_all_iff sorted_same_set [OF assms(2)]
proof
  fix a
  assume "a \<in> set fetched"
  from fetched_enriched [OF assms(1) this] get_sentiment_label show "labelled a"
    by (auto simp: labelled_def)
qed

lemma unit_scored_sorted:
  assumes "\<forall>m text. list_all unit_score (reported_scores (sentiment_api w m text))"
    and "fetch_all_news_pages w symbols n = Inr fetched"
    and "py_sort_reverse publishedAt fetched = Inr sorted_news"
  shows "list_all unit_scored sorted_news"
  unfolding list_all_iff sorted_same_set [OF assms(3)]
proof
  fix a
  assume "a \<in> set fetched"
  from fetched_enriched [OF assms(2) this] get_sentiment_unit_score assms(1) show "unit_scored a"
    by (auto simp: unit_scored_def)
qed

lemma get_sentiment_score_source:
  "snd (get_sentiment w n text) = JNum 0.5
   \<or> snd (get_sentiment w n text) \<in> set (reported_scores (sentiment_api w n text))"
proof (cases "sentiment_api w n text")
  case Transport_error
  then show ?thesis by (simp add: get_sentiment_def)
next
  case (Response ok body)
  show ?thesis
  proof (cases body)
    case None
    with Response show ?thesis by (simp add: get_sentiment_def)
  next
    case (Some result)
    show ?thesis
    proof (cases "sentiment_of_result result")
      case (Inl e)
      with Response Some show ?thesis by (simp add: get_sentiment_def)
    next
      case (Inr r)
      with sentiment_of_result_Inr [of result "fst r" "snd r" ok] Response Some show ?thesis
        by (simp add: get_sentiment_def)
    qed
  qed
qed

text \<open>
  C2, as amended. In every state that the stores reach from the empty stores by requests
  to the two endpoints, every article of every list that a request returns has its
  sentiment set to one of \<open>POSITIVE\<close>, \<open>NEUTRAL\<close>, \<open>NEGATIVE\<close> and its score set, whatever
  the news provider and the sentiment service answer. The score is the default 0.5 or
  a score that the sentiment service reported, taken over unchanged; it is a number
  between 0 and 1 when the requests were served by sentiment services all of whose
  reported scores are numbers between 0 and 1.
\<close>

theorem returned_articles_enriched:
  "(served any_world st \<and> snd (get_news w clk st symbols page limit) = Ok arts \<longrightarrow>
      list_all labelled arts)
   \<and> (served any_world st \<and> snd (refresh_news w clk st symbols) = Ok arts \<longrightarrow>
      list_all labelled arts)
   \<and> (snd (get_sentiment w n text) = JNum 0.5
       \<or> snd (get_sentiment w n text) \<in> set (reported_scores (sentiment_api w n text)))
   \<and> (served unit_service st \<and> unit_service w
        \<and> snd (get_news w clk st symbols page limit) = Ok arts \<longrightarrow>
      list_all unit_scored arts)
   \<and> (served unit_service st \<and> unit_service w
        \<and> snd (refresh_news w clk st symbols) = Ok arts \<longrightarrow>
      list_all unit_scored arts)"
proof (intro conjI impI)
  assume a: "served any_world st \<and> snd (get_news w clk st symbols page limit) = Ok arts"
  have "snd (get_news w clk st symbols page limit) = Ok arts \<longrightarrow> list_all labelled arts"
    by (rule served_answers(1) [of any_world])
      (use a in \<open>auto simp: any_world_def intro: labelled_sorted\<close>)
  with a show "list_all labelled arts" by simp
next
  assume a: "served any_world st \<and> snd (refresh_news w clk st symbols) = Ok arts"
  have "snd (refresh_news w clk st symbols) = Ok arts \<longrightarrow> list_all labelled arts"
    by (rule served_answers(2) [of any_world])
      (use a in \<open>auto simp: any_world_def intro: labelled_sorted\<close>)
  with a show "list_all labelled arts" by simp
next
  show "snd (get_sentiment w n text) = JNum 0.5
   \<or> snd (get_sentiment w n text) \<in> set (reported_scores (sentiment_api w n text))"
    by (rule get_sentiment_score_source)
next
  assume a: "served unit_service st \<and> unit_service w
        \<and> snd (get_news w clk st symbols page limit) = Ok arts"
  have "snd (get_news w clk st symbols page limit) = Ok arts \<longrightarrow> list_all unit_scored arts"
    by (rule served_answers(1) [of unit_service])
      (use a in \<open>auto simp: unit_service_def intro: unit_scored_sorted\<close>)
  with a show "list_all unit_scored arts" by simp
next
  assume a: "served unit_service st \<and> unit_service w
        \<and> snd (refresh_news w clk st symbols) = Ok arts"
  have "snd (refresh_news w clk st symbols) = Ok arts \<longrightarrow> list_all unit_scored arts"
    by (rule served_answers(2) [of unit_service])
      (use a in \<open>auto simp: unit_service_def intro: unit_scored_sorted\<close>)
  with a show "list_all unit_scored arts" by simp
qed

theorem returned_articles_enriched_witness:
  "served any_world initial_state
   \<and> snd (get_news tie_world (clock_at 0) initial_state None 1 30) = Ok tie_sorted
   \<and> list_all labelled tie_sorted
   \<and> served any_world refreshed_state
   \<and> snd (refresh_news tie_world (clock_at 20) refreshed_state None) = Ok tie_sorted
   \<and> served unit_service initial_state
   \<and> unit_service tie_world
   \<and> list_all unit_scored tie_sorted
   \<and> served unit_service (fst (get_news tie_world (clock_at 0) initial_state None 1 30))
   \<and> snd (refresh_news tie_world (clock_at 20)
        (fst (get_news tie_world (clock_at 0) initial_state None 1 30)) None) = Ok tie_sorted"
proof -
  let ?st = "fst (get_news tie_world (clock_at 0) initial_state None 1 30)"
  note first = get_news_tie_initial and again = refresh_news_tie_refreshed
    and unit = unit_service_tie_world
  have start: "served ok initial_state" for ok
    by (rule served_initial)
  have "served any_world (fst (refresh_news example_world (clock_at 0) initial_state None))"
    by (intro served_refresh_news served_initial) (simp add: any_world_def)
  then have refreshed: "served any_world refreshed_state"
    by (simp add: refresh_news_example_initial)
  have served: "served unit_service ?st"
    by (intro served_get_news served_initial unit)
  have "rate_limit_cache ?st = [(''rate_limit:general'', (), 10)]"
    using rate_limit_cache_get_news [of tie_world "clock_at 0" initial_state None 1 30] first
    by (simp add: ttl_setitem_def initial_state_def clock_at_readings RATE_LIMIT_TTL_def
        rate_limit_key_def symbols_or_def)
  then have later: "snd (refresh_news tie_world (clock_at 20) ?st None) = Ok tie_sorted"
    by (simp add: refresh_news_def Let_def ttl_contains_def ttl_lookup_def
        rate_limit_refresh_key_def symbols_or_def fetch_tie_world sort_tie)
  from returned_articles_enriched [where st = initial_state and w = tie_world
      and clk = "clock_at 0" and symbols = None and page = 1 and limit = 30
      and arts = tie_sorted, THEN conjunct1] start first
  have r1: "list_all labelled tie_sorted"
    by (rule mp [OF _ conjI])
  from returned_articles_enriched [where st = refreshed_state and w = tie_world
      and clk = "clock_at 20" and symbols = None and arts = tie_sorted,
      THEN conjunct2, THEN conjunct1] refreshed again
  have "list_all labelled tie_sorted"
    by (rule mp [OF _ conjI])
  from returned_articles_enriched [where st = initial_state and w = tie_world
      and clk = "clock_at 0" and symbols = None and page = 1 and limit = 30
      and arts = tie_sorted,
      THEN conjunct2, THEN conjunct2, THEN conjunct2, THEN conjunct1] start unit first
  have r2: "list_all unit_scored tie_sorted"
    by (rule mp [OF _ conjI [OF _ conjI]])
  from returned_articles_enriched [where st = ?st and w = tie_world
      and clk = "clock_at 20" and symbols = None and arts = tie_sorted,
      THEN conjunct2, THEN conjunct2, THEN conjunct2, THEN conjunct2] served unit later
  have "list_all unit_scored tie_sorted"
    by (rule mp [OF _ conjI [OF _ conjI]])
  show ?thesis
    by (intro conjI start first r1 refreshed again unit r2 served later)
qed

text \<open>The claim as stated fails: a score that the service reports is passed on as it
  is, here the score 7.\<close>

theorem loud_score_passed_on:
  "snd (get_news loud_world (clock_at 0) initial_state None 1 30) = Ok loud_sorted
   \<and> sentiment_score (hd loud_sorted) = Some (JNum 7)
   \<and> \<not> unit_score (JNum 7)
   \<and> \<not> list_all unit_scored loud_sorted"
  by (simp add: get_news_loud_initial)
    (simp add: loud_sorted_def enriched_def unit_scored_def unit_score_def)

end
